theory Spec2Isabelle
  imports Main "HOL-Library.Sublist"
begin

section \<open>Values, argument bags and errors\<close>

text \<open>
  The handlers of \<^verbatim>\<open>server.py\<close> receive their arguments as a Python \<^verbatim>\<open>dict\<close>
  decoded from JSON. The embedding keeps the JSON values the handlers tell apart: strings
  (UTF-8 byte strings, the bytes \<^verbatim>\<open>urllib.parse.quote\<close> works on), booleans and
  \<^verbatim>\<open>null\<close>. Numbers, arrays and objects are outside the embedding.

  An argument bag is an association list read through \<open>map_of\<close> and tested for
  emptiness, the two things the code does with \<^verbatim>\<open>arguments\<close>
  (\<^verbatim>\<open>key in arguments\<close>, \<^verbatim>\<open>arguments[key]\<close>, \<^verbatim>\<open>arguments.get\<close>, \<^verbatim>\<open>not arguments\<close>).
\<close>

datatype jvalue = JStr string | JBool bool | JNull

type_synonym arguments = "(string \<times> jvalue) list"

text \<open>
  The exceptions the handlers raise: \<open>Inl\<close> of a result is a raised exception.
  \<open>SendError\<close> stands for whatever \<^verbatim>\<open>send_resource_list_changed()\<close> raises, carried by
  its \<^verbatim>\<open>str\<close> text.
\<close>

datatype error = ValueError string | KeyError string | TypeError string | SendError string

text \<open>Python truthiness, as \<^verbatim>\<open>not x\<close> tests it.\<close>

fun truthy :: "jvalue \<Rightarrow> bool" where
  "truthy (JStr s) = (s \<noteq> [])"
| "truthy (JBool b) = b"
| "truthy JNull = False"

text \<open>\<^verbatim>\<open>str(x)\<close>, as an f-string formats a value.\<close>

fun py_str :: "jvalue \<Rightarrow> string" where
  "py_str (JStr s) = s"
| "py_str (JBool b) = (if b then ''True'' else ''False'')"
| "py_str JNull = ''None''"

text \<open>
  \<^verbatim>\<open>str.lower()\<close>. On a string of ASCII characters it turns \<^verbatim>\<open>A-Z\<close> into \<^verbatim>\<open>a-z\<close> and
  keeps every other character. On a string with a character beyond ASCII it follows the
  Unicode case tables of the Python runtime, which are not part of the repository: that
  lowering is a parameter, \<open>low\<close>.
\<close>

definition lower_char :: "char \<Rightarrow> char" where
  "lower_char c =
     (case map_of (zip ''ABCDEFGHIJKLMNOPQRSTUVWXYZ'' ''abcdefghijklmnopqrstuvwxyz'') c of
        Some l \<Rightarrow> l
      | None \<Rightarrow> c)"

definition is_ascii :: "string \<Rightarrow> bool" where
  "is_ascii s = list_all (\<lambda>c. (of_char c :: nat) < 128) s"

definition lower :: "(string \<Rightarrow> string) \<Rightarrow> string \<Rightarrow> string" where
  "lower low s = (if is_ascii s then map lower_char s else low s)"

text \<open>\<^verbatim>\<open>arguments.get(key)\<close>: the value, or \<^verbatim>\<open>None\<close> for a missing key.\<close>

definition get :: "arguments \<Rightarrow> string \<Rightarrow> jvalue" where
  "get args k = (case map_of args k of None \<Rightarrow> JNull | Some v \<Rightarrow> v)"

text \<open>\<^verbatim>\<open>sep.join(parts)\<close>.\<close>

fun join :: "string \<Rightarrow> string list \<Rightarrow> string" where
  "join sep [] = []"
| "join sep [p] = p"
| "join sep (p # q # ps) = p @ sep @ join sep (q # ps)"

section \<open>Percent-encoding: \<^verbatim>\<open>urllib.parse.quote\<close>\<close>

text \<open>
  \<^verbatim>\<open>quote(string)\<close> with its default \<^verbatim>\<open>safe='/'\<close>: the string is encoded as UTF-8 and
  every byte that is not in \<^verbatim>\<open>_ALWAYS_SAFE\<close> or \<^verbatim>\<open>safe\<close> becomes \<^verbatim>\<open>'%{:02X}'.format(byte)\<close>.
  An argument that is neither \<^verbatim>\<open>str\<close> nor \<^verbatim>\<open>bytes\<close> raises \<^verbatim>\<open>TypeError\<close>.
\<close>

definition always_safe :: string where
  "always_safe = ''ABCDEFGHIJKLMNOPQRSTUVWXYZabcdefghijklmnopqrstuvwxyz0123456789_.-~''"

definition hex_digit :: "nat \<Rightarrow> char" where
  "hex_digit n = ''0123456789ABCDEF'' ! (n mod 16)"

definition quote_byte :: "char \<Rightarrow> string" where
  "quote_byte c =
     (if c \<in> set always_safe \<or> c = CHR ''/'' then [c]
      else [CHR ''%'', hex_digit ((of_char c :: nat) div 16), hex_digit ((of_char c :: nat) mod 16)])"

definition quote :: "string \<Rightarrow> string" where
  "quote s = concat (map quote_byte s)"

fun quote_value :: "jvalue \<Rightarrow> error + string" where
  "quote_value (JStr s) = Inr (quote s)"
| "quote_value v = Inl (TypeError ''quote_from_bytes() expected bytes'')"

section \<open>The External Invoker: \<^verbatim>\<open>XCallbackURLHandler.call_url\<close>\<close>

text \<open>
  \<^verbatim>\<open>subprocess.run(['open', url], check=True, capture_output=True, text=True)\<close> is the
  environment. It completes with exit status 0 and the captured standard output, raises
  \<^verbatim>\<open>CalledProcessError\<close> on a non-zero exit status (carried here by its \<^verbatim>\<open>str\<close> text, which
  names the command and the status), or raises something else (the command is missing,
  for example), carried by its \<^verbatim>\<open>str\<close> text too.
\<close>

datatype run_result = Completed string | CalledProcessError string | OtherError string

text \<open>
  What \<^verbatim>\<open>call_url\<close> can raise: the \<^verbatim>\<open>RuntimeError\<close> it builds from a
  \<^verbatim>\<open>CalledProcessError\<close>, or any other exception of \<^verbatim>\<open>subprocess.run\<close>, which its
  \<^verbatim>\<open>except\<close> clause does not catch.
\<close>

datatype invoke_error = RuntimeError string | Uncaught string

text \<open>\<^verbatim>\<open>str(e)\<close> of such an exception.\<close>

fun str_exc :: "invoke_error \<Rightarrow> string" where
  "str_exc (RuntimeError m) = m"
| "str_exc (Uncaught m) = m"

text \<open>
  The server's state: the module-level \<^verbatim>\<open>notes\<close> dict in insertion order, the URLs handed
  to the \<^verbatim>\<open>open\<close> command so far, and the number of resource-list-changed notifications
  sent to the session. The dict is annotated \<^verbatim>\<open>dict[str, str]\<close>, but \<^verbatim>\<open>add-note\<close> stores
  whatever truthy values it is given, so keys and contents are values here.
\<close>

record state =
  notes_store :: "(jvalue \<times> jvalue) list"
  opened :: "string list"
  notifications :: nat

text \<open>
  What the server does not hold itself: the \<^verbatim>\<open>open\<close> command behind \<^verbatim>\<open>subprocess.run\<close>,
  the session's \<^verbatim>\<open>send_resource_list_changed()\<close> (\<open>None\<close> when the notification went out,
  the text of the exception when it raised), and \<^verbatim>\<open>str.lower()\<close> beyond ASCII.
\<close>

record environment =
  run_open :: "string \<Rightarrow> run_result"
  send_changed :: "state \<Rightarrow> string option"
  lower_non_ascii :: "string \<Rightarrow> string"

text \<open>An environment for examples: the command succeeds silently and the send goes out.\<close>

definition quiet :: environment where
  "quiet = \<lparr>run_open = (\<lambda>u. Completed []), send_changed = (\<lambda>s. None),
             lower_non_ascii = (\<lambda>s. s)\<rparr>"

definition call_url ::
  "(string \<Rightarrow> run_result) \<Rightarrow> string \<Rightarrow> state \<Rightarrow> (invoke_error + string) \<times> state" where
  "call_url run url s =
     ((case run url of
         Completed out \<Rightarrow> Inr out
       | CalledProcessError e \<Rightarrow> Inl (RuntimeError (''Failed to execute x-callback-url: '' @ e))
       | OtherError e \<Rightarrow> Inl (Uncaught e)),
      s\<lparr>opened := opened s @ [url]\<rparr>)"

section \<open>The note store\<close>

text \<open>
  \<^verbatim>\<open>notes[k] = v\<close>: a key that is present keeps its place and gets the new value, a new
  key goes to the end.
\<close>

fun dict_set :: "('k \<times> 'v) list \<Rightarrow> 'k \<Rightarrow> 'v \<Rightarrow> ('k \<times> 'v) list" where
  "dict_set [] k v = [(k, v)]"
| "dict_set ((k', v') # d) k v = (if k' = k then (k, v) # d else (k', v') # dict_set d k v)"

section \<open>Resources: \<^verbatim>\<open>handle_read_resource\<close>\<close>

text \<open>
  The components of the parsed \<^verbatim>\<open>AnyUrl\<close> that the handlers read, as the \<^verbatim>\<open>AnyUrl\<close>
  gives them: the path is percent-encoded, and \<^verbatim>\<open>None\<close> when the URI has no path.
\<close>

record uri =
  scheme :: string
  host :: string
  path :: "string option"

text \<open>\<^verbatim>\<open>name.lstrip("/")\<close>.\<close>

definition lstrip_slash :: "string \<Rightarrow> string" where
  "lstrip_slash s = dropWhile (\<lambda>c. c = CHR ''/'') s"

definition handle_read_resource :: "state \<Rightarrow> uri \<Rightarrow> error + jvalue" where
  "handle_read_resource s u =
     (if scheme u \<noteq> ''note'' then Inl (ValueError (''Unsupported URI scheme: '' @ scheme u))
      else (case path u of
              Some p \<Rightarrow>
                (case map_of (notes_store s) (JStr (lstrip_slash p)) of
                   Some c \<Rightarrow> Inr c
                 | None \<Rightarrow> Inl (KeyError (lstrip_slash p)))
            | None \<Rightarrow> Inl (ValueError ''Note not found: None'')))"

section \<open>Prompts: \<^verbatim>\<open>handle_get_prompt\<close>\<close>

record prompt_message =
  role :: string
  content :: string

record get_prompt_result =
  description :: string
  messages :: "prompt_message list"

definition note_line :: "jvalue \<times> jvalue \<Rightarrow> string" where
  "note_line nc = ''- '' @ py_str (fst nc) @ '': '' @ py_str (snd nc)"

definition handle_get_prompt ::
  "state \<Rightarrow> string \<Rightarrow> arguments option \<Rightarrow> error + get_prompt_result" where
  "handle_get_prompt s name arguments =
     (if name \<noteq> ''summarize-notes'' then Inl (ValueError (''Unknown prompt: '' @ name))
      else
        (let style = (case arguments of
                        None \<Rightarrow> JStr ''brief''
                      | Some a \<Rightarrow> (case map_of a ''style'' of None \<Rightarrow> JStr ''brief'' | Some v \<Rightarrow> v));
             detail_prompt = (if style = JStr ''detailed'' then '' Give extensive details.'' else [])
         in Inr \<lparr>description = ''Summarize the current notes'',
                 messages =
                   [\<lparr>role = ''user'',
                     content = ''Here are the current notes to summarize:'' @ detail_prompt
                       @ [CHR 0x0A, CHR 0x0A]
                       @ join [CHR 0x0A] (map note_line (notes_store s))\<rparr>]\<rparr>))"

section \<open>The URL Builder\<close>

text \<open>
  Each tool builds its query with a run of statements of one shape,
  \<^verbatim>\<open>if "key" in arguments: params.append(f"query-name={rendered value}")\<close>,
  the required parameters without the test. A field is the argument key, the name in the
  query and the way the value is rendered: \<^verbatim>\<open>quote(v)\<close>, \<^verbatim>\<open>str(v).lower()\<close> or the bare
  \<^verbatim>\<open>{v}\<close> of the f-string.
\<close>

datatype rendering = Quoted | Lowered | Plain

type_synonym field = "string \<times> string \<times> rendering"

fun render :: "environment \<Rightarrow> rendering \<Rightarrow> jvalue \<Rightarrow> error + string" where
  "render env Quoted v = quote_value v"
| "render env Lowered v = Inr (lower (lower_non_ascii env) (py_str v))"
| "render env Plain v = Inr (py_str v)"

text \<open>
  \<^verbatim>\<open>params.append(f"name={render(arguments['key'])}")\<close>: a missing key raises
  \<^verbatim>\<open>KeyError\<close>.
\<close>

fun required_params :: "environment \<Rightarrow> arguments \<Rightarrow> field list \<Rightarrow> string list \<Rightarrow> error + string list" where
  "required_params env args [] params = Inr params"
| "required_params env args ((k, q, r) # fs) params =
     (case map_of args k of
        None \<Rightarrow> Inl (KeyError k)
      | Some v \<Rightarrow>
          (case render env r v of
             Inl e \<Rightarrow> Inl e
           | Inr t \<Rightarrow> required_params env args fs (params @ [q @ ''='' @ t])))"

text \<open>\<^verbatim>\<open>if "key" in arguments: params.append(...)\<close>, statement after statement.\<close>

fun optional_params :: "environment \<Rightarrow> arguments \<Rightarrow> field list \<Rightarrow> string list \<Rightarrow> error + string list" where
  "optional_params env args [] params = Inr params"
| "optional_params env args ((k, q, r) # fs) params =
     (case map_of args k of
        None \<Rightarrow> optional_params env args fs params
      | Some v \<Rightarrow>
          (case render env r v of
             Inl e \<Rightarrow> Inl e
           | Inr t \<Rightarrow> optional_params env args fs (params @ [q @ ''='' @ t])))"

text \<open>\<^verbatim>\<open>url = f"{base_url}?{'&'.join(params)}"\<close> after the required and the optional statements.\<close>

definition build_url ::
  "environment \<Rightarrow> string \<Rightarrow> field list \<Rightarrow> field list \<Rightarrow> arguments \<Rightarrow> error + string" where
  "build_url env base_url required optional args =
     (case required_params env args required [] of
        Inl e \<Rightarrow> Inl e
      | Inr params \<Rightarrow>
          (case optional_params env args optional params of
             Inl e \<Rightarrow> Inl e
           | Inr params' \<Rightarrow> Inr (base_url @ ''?'' @ join ''&'' params')))"

text \<open>Lines 234 to 267: the query of \<^verbatim>\<open>create-agenda-note\<close>.\<close>

definition create_note_required :: "field list" where
  "create_note_required = [(''title'', ''title'', Quoted), (''text'', ''text'', Quoted)]"

definition create_note_optional :: "field list" where
  "create_note_optional =
     [(''project_title'', ''project-title'', Quoted),
      (''on_the_agenda'', ''on-the-agenda'', Lowered),
      (''date'', ''date'', Quoted),
      (''start_date'', ''start-date'', Quoted),
      (''end_date'', ''end-date'', Quoted),
      (''template_name'', ''template-name'', Quoted),
      (''template_input'', ''template-input'', Quoted),
      (''collapsed'', ''collapsed'', Lowered),
      (''completed'', ''completed'', Lowered),
      (''pinned'', ''pinned'', Lowered),
      (''footnote'', ''footnote'', Lowered),
      (''select'', ''select'', Lowered)]"

definition create_note_url :: "environment \<Rightarrow> arguments \<Rightarrow> error + string" where
  "create_note_url env =
     build_url env ''agenda://x-callback-url/create-note'' create_note_required create_note_optional"

text \<open>Lines 291 to 307: the query of \<^verbatim>\<open>create-agenda-project\<close>.\<close>

definition create_project_required :: "field list" where
  "create_project_required = [(''title'', ''title'', Quoted)]"

definition create_project_optional :: "field list" where
  "create_project_optional =
     [(''category_title'', ''category-title'', Quoted),
      (''identifier'', ''identifier'', Quoted),
      (''select'', ''select'', Lowered),
      (''sort_order'', ''sort-order'', Plain)]"

definition create_project_url :: "environment \<Rightarrow> arguments \<Rightarrow> error + string" where
  "create_project_url env =
     build_url env ''agenda://x-callback-url/create-project''
       create_project_required create_project_optional"

text \<open>Lines 334 to 347: the query of \<^verbatim>\<open>open-agenda-note\<close>, which has no required statement.\<close>

definition open_note_optional :: "field list" where
  "open_note_optional =
     [(''title'', ''title'', Quoted),
      (''identifier'', ''identifier'', Quoted),
      (''project_title'', ''project-title'', Quoted),
      (''separate_window'', ''separate-window'', Lowered)]"

definition open_note_url :: "environment \<Rightarrow> arguments \<Rightarrow> error + string" where
  "open_note_url env = build_url env ''agenda://x-callback-url/open-note'' [] open_note_optional"

section \<open>The Tool Dispatcher: \<^verbatim>\<open>handle_call_tool\<close>\<close>

datatype content = TextContent string

type_synonym tool_result = "(error + content list) \<times> state"

text \<open>
  The \<^verbatim>\<open>try\<close> block of the three Agenda tools: \<^verbatim>\<open>call_url(url)\<close>, then the confirmation;
  \<^verbatim>\<open>except Exception as e\<close> returns the failure text with \<^verbatim>\<open>str(e)\<close>.
\<close>

definition invoke :: "(string \<Rightarrow> run_result) \<Rightarrow> state \<Rightarrow> string \<Rightarrow> string \<Rightarrow> string \<Rightarrow> tool_result" where
  "invoke run s url ok_text fail_prefix =
     (case call_url run url s of
        (Inr out, s') \<Rightarrow> (Inr [TextContent ok_text], s')
      | (Inl e, s') \<Rightarrow> (Inr [TextContent (fail_prefix @ str_exc e)], s'))"

text \<open>
  Lines 206 to 227. The store is written (line 217) before the notification is awaited
  (line 220): when the send raises, the call raises with the note already stored.
\<close>

definition add_note :: "environment \<Rightarrow> state \<Rightarrow> arguments option \<Rightarrow> tool_result" where
  "add_note env s arguments =
     (case arguments of
        None \<Rightarrow> (Inl (ValueError ''Missing arguments''), s)
      | Some a \<Rightarrow>
          if a = [] then (Inl (ValueError ''Missing arguments''), s)
          else
            (let note_name = get a ''name''; content = get a ''content''
             in if \<not> truthy note_name \<or> \<not> truthy content
                then (Inl (ValueError ''Missing name or content''), s)
                else
                  (let s1 = s\<lparr>notes_store := dict_set (notes_store s) note_name content\<rparr>
                   in case send_changed env s1 of
                        Some e \<Rightarrow> (Inl (SendError e), s1)
                      | None \<Rightarrow>
                          (Inr [TextContent (''Added note '' @ [CHR 0x27] @ py_str note_name
                                   @ [CHR 0x27] @ '' with content: '' @ py_str content)],
                           s1\<lparr>notifications := Suc (notifications s1)\<rparr>))))"

text \<open>Lines 229 to 284.\<close>

definition create_agenda_note :: "environment \<Rightarrow> state \<Rightarrow> arguments option \<Rightarrow> tool_result" where
  "create_agenda_note env s arguments =
     (case arguments of
        None \<Rightarrow> (Inl (ValueError ''Missing arguments''), s)
      | Some a \<Rightarrow>
          if a = [] then (Inl (ValueError ''Missing arguments''), s)
          else
            (case create_note_url env a of
               Inl e \<Rightarrow> (Inl e, s)
             | Inr url \<Rightarrow>
                 invoke (run_open env) s url
                   (''Created note '' @ [CHR 0x27] @ py_str (get a ''title'') @ [CHR 0x27] @ '' in Agenda'')
                   ''Failed to create note in Agenda: ''))"

text \<open>Lines 286 to 324.\<close>

definition create_agenda_project :: "environment \<Rightarrow> state \<Rightarrow> arguments option \<Rightarrow> tool_result" where
  "create_agenda_project env s arguments =
     (case arguments of
        None \<Rightarrow> (Inl (ValueError ''Missing arguments''), s)
      | Some a \<Rightarrow>
          if a = [] then (Inl (ValueError ''Missing arguments''), s)
          else
            (case create_project_url env a of
               Inl e \<Rightarrow> (Inl e, s)
             | Inr url \<Rightarrow>
                 invoke (run_open env) s url
                   (''Created project '' @ [CHR 0x27] @ py_str (get a ''title'') @ [CHR 0x27] @ '' in Agenda'')
                   ''Failed to create project in Agenda: ''))"

text \<open>
  Lines 326 to 365. \<^verbatim>\<open>note_desc\<close> is the title, else the identifier, else the default.
\<close>

definition open_agenda_note :: "environment \<Rightarrow> state \<Rightarrow> arguments option \<Rightarrow> tool_result" where
  "open_agenda_note env s arguments =
     (case arguments of
        None \<Rightarrow> (Inl (ValueError ''Missing arguments''), s)
      | Some a \<Rightarrow>
          if a = [] then (Inl (ValueError ''Missing arguments''), s)
          else if map_of a ''title'' = None \<and> map_of a ''identifier'' = None
          then (Inl (ValueError ''Either title or identifier must be provided''), s)
          else
            (case open_note_url env a of
               Inl e \<Rightarrow> (Inl e, s)
             | Inr url \<Rightarrow>
                 (let note_desc =
                        (case map_of a ''title'' of
                           Some t \<Rightarrow> t
                         | None \<Rightarrow>
                             (case map_of a ''identifier'' of
                                Some i \<Rightarrow> i
                              | None \<Rightarrow> JStr ''requested note''))
                  in invoke (run_open env) s url
                       (''Opened note '' @ [CHR 0x27] @ py_str note_desc @ [CHR 0x27] @ '' in Agenda'')
                       ''Failed to open note in Agenda: '')))"

definition handle_call_tool ::
  "environment \<Rightarrow> state \<Rightarrow> string \<Rightarrow> arguments option \<Rightarrow> tool_result" where
  "handle_call_tool env s name arguments =
     (if name = ''add-note'' then add_note env s arguments
      else if name = ''create-agenda-note'' then create_agenda_note env s arguments
      else if name = ''create-agenda-project'' then create_agenda_project env s arguments
      else if name = ''open-agenda-note'' then open_agenda_note env s arguments
      else (Inl (ValueError (''Unknown tool: '' @ name)), s))"

text \<open>
  The protocol host hands the requests to the handler one at a time; each call runs on
  the state the one before it left.
\<close>

fun call_tools ::
  "environment \<Rightarrow> state \<Rightarrow> (string \<times> arguments option) list
     \<Rightarrow> (error + content list) list \<times> state" where
  "call_tools env s [] = ([], s)"
| "call_tools env s ((name, arguments) # cs) =
     (case handle_call_tool env s name arguments of
        (r, s') \<Rightarrow> (case call_tools env s' cs of (rs, s'') \<Rightarrow> (r # rs, s'')))"

section \<open>Reading a query back\<close>

text \<open>
  The name of a \<^verbatim>\<open>name=value\<close> parameter, the fields of a table whose key the argument
  bag has, what it means for a parameter to be the entry of a field, and the values a
  rendering accepts (\<^verbatim>\<open>quote\<close> wants a string, the other two take anything).
\<close>

definition param_name :: "string \<Rightarrow> string" where
  "param_name p = takeWhile (\<lambda>c. c \<noteq> CHR ''='') p"

definition present :: "arguments \<Rightarrow> field list \<Rightarrow> field list" where
  "present args fs = filter (\<lambda>(k, q, r). map_of args k \<noteq> None) fs"

fun entry :: "environment \<Rightarrow> arguments \<Rightarrow> field \<Rightarrow> string \<Rightarrow> bool" where
  "entry env args (k, q, r) p =
     (case map_of args k of
        None \<Rightarrow> False
      | Some v \<Rightarrow> (case render env r v of Inl e \<Rightarrow> False | Inr t \<Rightarrow> p = q @ ''='' @ t))"

fun renders :: "rendering \<Rightarrow> jvalue \<Rightarrow> bool" where
  "renders Quoted (JStr s) = True"
| "renders Quoted v = False"
| "renders r v = True"

fun can_render :: "arguments \<Rightarrow> field \<Rightarrow> bool" where
  "can_render args (k, q, r) = (case map_of args k of None \<Rightarrow> True | Some v \<Rightarrow> renders r v)"

text \<open>\<^verbatim>\<open>s.split(c)\<close> for a separator of one character: how a reader cuts a query at \<^verbatim>\<open>&\<close>.\<close>

fun split_on :: "char \<Rightarrow> string \<Rightarrow> string list" where
  "split_on c [] = [[]]"
| "split_on c (x # xs) =
     (if x = c then [] # split_on c xs
      else (case split_on c xs of p # ps \<Rightarrow> (x # p) # ps | [] \<Rightarrow> [[x]]))"

section \<open>Percent-encoded text\<close>

text \<open>
  A string is escaped when it is made of the characters \<^verbatim>\<open>quote\<close> leaves alone and of
  \<^verbatim>\<open>%\<close> followed by two upper-case hexadecimal digits. The reserved characters are the
  delimiters of RFC 3986 other than \<^verbatim>\<open>/\<close>, with the space and the two quotation marks.
\<close>

definition is_hex :: "char \<Rightarrow> bool" where
  "is_hex c = (c \<in> set ''0123456789ABCDEF'')"

fun escaped :: "string \<Rightarrow> bool" where
  "escaped [] = True"
| "escaped (c # cs) =
     (if c = CHR ''%''
      then (case cs of h1 # h2 # rest \<Rightarrow> is_hex h1 \<and> is_hex h2 \<and> escaped rest | _ \<Rightarrow> False)
      else (c \<in> set always_safe \<or> c = CHR ''/'') \<and> escaped cs)"

definition reserved :: string where
  "reserved = '':?#[]@!$&()*+,;= '' @ [CHR 0x27, CHR 0x22]"

section \<open>Sequences of add-note calls\<close>

text \<open>
  A run of \<^verbatim>\<open>add-note\<close> requests, one per argument bag, and whether a call returned
  (rather than raised).
\<close>

definition add_note_calls :: "arguments list \<Rightarrow> (string \<times> arguments option) list" where
  "add_note_calls bags = map (\<lambda>a. (''add-note'', Some a)) bags"

definition succeeded :: "error + content list \<Rightarrow> bool" where
  "succeeded r = (case r of Inl e \<Rightarrow> False | Inr c \<Rightarrow> True)"

section \<open>The parameter list follows the field tables\<close>

lemma optional_params_shape:
  "optional_params env args fs ps = Inr ps' \<Longrightarrow>
     \<exists>new. ps' = ps @ new \<and> list_all2 (entry env args) (present args fs) new"
proof (induction fs arbitrary: ps)
  case Nil
  then show ?case by (simp add: present_def)
next
  case (Cons f fs)
  obtain k q r where f: "f = (k, q, r)" by (cases f)
  show ?case
  proof (cases "map_of args k")
    case None
    with Cons f show ?thesis by (simp add: present_def)
  next
    case (Some v)
    with Cons.prems f obtain t where t: "render env r v = Inr t"
      and rest: "optional_params env args fs (ps @ [q @ ''='' @ t]) = Inr ps'"
      by (auto split: sum.splits)
    from Cons.IH [OF rest] obtain new where
      "ps' = (ps @ [q @ ''='' @ t]) @ new" "list_all2 (entry env args) (present args fs) new"
      by blast
    with Some t f show ?thesis
      by (intro exI [of _ "(q @ ''='' @ t) # new"]) (simp add: present_def)
  qed
qed

lemma required_params_shape:
  "required_params env args fs ps = Inr ps' \<Longrightarrow>
     \<exists>new. ps' = ps @ new \<and> list_all2 (entry env args) fs new"
proof (induction fs arbitrary: ps)
  case Nil
  then show ?case by simp
next
  case (Cons f fs)
  obtain k q r where f: "f = (k, q, r)" by (cases f)
  from Cons.prems f obtain v t where v: "map_of args k = Some v" and t: "render env r v = Inr t"
      and rest: "required_params env args fs (ps @ [q @ ''='' @ t]) = Inr ps'"
    by (auto split: sum.splits option.splits)
  from Cons.IH [OF rest] obtain new where
    "ps' = (ps @ [q @ ''='' @ t]) @ new" "list_all2 (entry env args) fs new"
    by blast
  with v t f show ?case
    by (intro exI [of _ "(q @ ''='' @ t) # new"]) simp
qed

lemma build_url_shape:
  assumes "build_url env base req opt args = Inr url"
  shows "\<exists>ps. url = base @ ''?'' @ join ''&'' ps \<and>
           list_all2 (entry env args) (req @ present args opt) ps"
proof -
  from assms obtain ps1 ps2 where r: "required_params env args req [] = Inr ps1"
    and o: "optional_params env args opt ps1 = Inr ps2"
    and u: "url = base @ ''?'' @ join ''&'' ps2"
    by (auto simp: build_url_def split: sum.splits)
  from required_params_shape [OF r] have 1: "list_all2 (entry env args) req ps1" by simp
  from optional_params_shape [OF o] obtain new where
    2: "ps2 = ps1 @ new" "list_all2 (entry env args) (present args opt) new" by blast
  from 1 2 have "list_all2 (entry env args) (req @ present args opt) ps2"
    by (simp add: list_all2_appendI)
  with u show ?thesis by blast
qed

lemma entry_param_name:
  "entry env args (k, q, r) p \<Longrightarrow> CHR ''='' \<notin> set q \<Longrightarrow> param_name p = q"
  by (auto simp: param_name_def takeWhile_append split: option.splits sum.splits)

lemma entries_param_names:
  "list_all2 (entry env args) fs ps \<Longrightarrow> \<forall>f \<in> set fs. CHR ''='' \<notin> set (fst (snd f)) \<Longrightarrow>
     map param_name ps = map (\<lambda>f. fst (snd f)) fs"
proof (induction rule: list_all2_induct)
  case Nil
  then show ?case by simp
next
  case (Cons f fs p ps)
  obtain k q r where f: "f = (k, q, r)" by (cases f)
  with Cons show ?case by (simp add: entry_param_name)
qed


lemma present_names:
  "map (\<lambda>f. fst (snd f)) (present args fs) =
     map snd (filter (\<lambda>(k, q). k \<in> dom (map_of args)) (map (\<lambda>(k, q, r). (k, q)) fs))"
  by (induction fs) (auto simp: present_def)

lemma present_subset: "set (present args fs) \<subseteq> set fs"
  by (auto simp: present_def)

lemma can_render_simps:
  "can_render args (k, q, Lowered)"
  "can_render args (k, q, Plain)"
  "can_render args (k, q, Quoted) = (\<forall>v. map_of args k = Some v \<longrightarrow> (\<exists>s. v = JStr s))"
proof -
  show "can_render args (k, q, Lowered)" by (simp split: option.splits)
  show "can_render args (k, q, Plain)" by (simp split: option.splits)
  show "can_render args (k, q, Quoted) = (\<forall>v. map_of args k = Some v \<longrightarrow> (\<exists>s. v = JStr s))"
  proof (cases "map_of args k")
    case None
    then show ?thesis by simp
  next
    case (Some v)
    then show ?thesis by (cases v) simp_all
  qed
qed

lemma renders_render: "renders r v \<Longrightarrow> \<exists>t. render env r v = Inr t"
  by (cases r; cases v) simp_all

lemma optional_params_total:
  "list_all (can_render args) fs \<Longrightarrow> \<exists>ps'. optional_params env args fs ps = Inr ps'"
proof (induction fs arbitrary: ps)
  case Nil
  then show ?case by simp
next
  case (Cons f fs)
  obtain k q r where f: "f = (k, q, r)" by (cases f)
  show ?case
  proof (cases "map_of args k")
    case None
    with Cons f show ?thesis by simp
  next
    case (Some v)
    with Cons.prems f have "renders r v" by simp
    then obtain t where "render env r v = Inr t"
      using renders_render by blast
    with Cons Some f show ?thesis by simp
  qed
qed

lemma required_params_total:
  "list_all (\<lambda>f. map_of args (fst f) \<noteq> None \<and> can_render args f) fs \<Longrightarrow>
     \<exists>ps'. required_params env args fs ps = Inr ps'"
proof (induction fs arbitrary: ps)
  case Nil
  then show ?case by simp
next
  case (Cons f fs)
  obtain k q r where f: "f = (k, q, r)" by (cases f)
  from Cons.prems f obtain v where v: "map_of args k = Some v" and "renders r v"
    by auto
  then obtain t where "render env r v = Inr t"
    using renders_render by blast
  with Cons v f show ?case by simp
qed

lemma build_url_total:
  assumes "list_all (\<lambda>f. map_of args (fst f) \<noteq> None \<and> can_render args f) req"
    and "list_all (can_render args) opt"
  shows "\<exists>url. build_url env base req opt args = Inr url"
proof -
  from required_params_total [OF assms(1)] obtain ps1 where
    1: "required_params env args req [] = Inr ps1" by blast
  from optional_params_total [OF assms(2)] obtain ps2 where
    2: "optional_params env args opt ps1 = Inr ps2" by blast
  from 1 2 show ?thesis by (simp add: build_url_def)
qed

lemma quote_A_B: "quote ''A B'' = ''A%20B''"
  by (simp add: quote_def quote_byte_def always_safe_def hex_digit_def)

lemma quote_C: "quote ''C'' = ''C''"
  by (simp add: quote_def quote_byte_def always_safe_def hex_digit_def)

lemma lower_True: "lower low ''True'' = ''true''"
  by (simp add: lower_def is_ascii_def lower_char_def)

lemma lower_False: "lower low ''False'' = ''false''"
  by (simp add: lower_def is_ascii_def lower_char_def)

section \<open>Percent-encoding and the values of the parameters\<close>

lemma is_hex_hex_digit: "is_hex (hex_digit n)"
proof -
  have "n mod 16 < length ''0123456789ABCDEF''" by simp
  then have "''0123456789ABCDEF'' ! (n mod 16) \<in> set ''0123456789ABCDEF''"
    by (rule nth_mem)
  then show ?thesis by (simp only: hex_digit_def is_hex_def)
qed

lemma percent_unsafe: "CHR ''%'' \<notin> set always_safe"
  by (simp add: always_safe_def)

lemma escaped_quote_byte: "escaped rest \<Longrightarrow> escaped (quote_byte c @ rest)"
proof (cases "c \<in> set always_safe \<or> c = CHR ''/''")
  case True
  moreover assume "escaped rest"
  moreover from True have "c \<noteq> CHR ''%''" using percent_unsafe by auto
  ultimately show ?thesis by (simp add: quote_byte_def)
next
  case False
  moreover assume "escaped rest"
  ultimately show ?thesis by (simp add: quote_byte_def is_hex_hex_digit)
qed

lemma escaped_quote: "escaped (quote s)"
  by (induction s) (simp_all add: quote_def escaped_quote_byte)


lemma hex_digit_chars: "hex_digit n \<in> set ''0123456789ABCDEF''"
  using is_hex_hex_digit [of n] by (simp only: is_hex_def)

lemma quote_byte_chars:
  "set (quote_byte c) \<subseteq> set always_safe \<union> {CHR ''/'', CHR ''%''} \<union> set ''0123456789ABCDEF''"
  using hex_digit_chars by (auto simp: quote_byte_def)

lemma quote_chars:
  "set (quote s) \<subseteq> set always_safe \<union> {CHR ''/'', CHR ''%''}"
proof -
  have "set ''0123456789ABCDEF'' \<subseteq> set always_safe" by (simp add: always_safe_def)
  with quote_byte_chars have "\<And>c. set (quote_byte c) \<subseteq> set always_safe \<union> {CHR ''/'', CHR ''%''}"
    by blast
  then show ?thesis by (auto simp: quote_def)
qed

lemma quote_no_reserved: "set (quote s) \<inter> set reserved = {}"
proof -
  have "(set always_safe \<union> {CHR ''/'', CHR ''%''}) \<inter> set reserved = {}"
    by (simp add: always_safe_def reserved_def)
  with quote_chars [of s] show ?thesis by blast
qed

lemma entry_present: "entry env args f p \<Longrightarrow> map_of args (fst f) \<noteq> None"
  by (cases f) (auto split: option.splits)

lemma entries_present:
  assumes "list_all2 (entry env args) fs ps"
  shows "present args fs = fs"
proof -
  have "\<forall>f \<in> set fs. map_of args (fst f) \<noteq> None"
  proof
    fix f assume "f \<in> set fs"
    then obtain i where "i < length fs" "fs ! i = f" by (auto simp: in_set_conv_nth)
    with assms have "entry env args f (ps ! i)" by (auto dest: list_all2_nthD)
    then show "map_of args (fst f) \<noteq> None" by (rule entry_present)
  qed
  then have "\<forall>f \<in> set fs. (case f of (k, q, r) \<Rightarrow> map_of args k \<noteq> None)"
    by (auto simp: case_prod_beta)
  then show ?thesis unfolding present_def by (simp only: filter_True)
qed

lemma present_append: "present args (fs @ gs) = present args fs @ present args gs"
  by (simp add: present_def)

lemma build_url_fields:
  assumes "build_url env base req opt args = Inr url"
  shows "\<exists>ps. url = base @ ''?'' @ join ''&'' ps \<and>
           list_all2 (entry env args) (present args (req @ opt)) ps"
proof -
  from build_url_shape [OF assms] obtain ps where
    u: "url = base @ ''?'' @ join ''&'' ps"
    and e: "list_all2 (entry env args) (req @ present args opt) ps"
    by blast
  from e have "list_all2 (entry env args) req (take (length req) ps)"
    by (auto simp: list_all2_append1)
  then have "present args req = req" by (rule entries_present)
  with e have "list_all2 (entry env args) (present args (req @ opt)) ps"
    by (simp add: present_append)
  with u show ?thesis by blast
qed

lemma entry_value:
  assumes "entry env args (k, q, r) p"
  shows "\<exists>v. map_of args k = Some v \<and>
           (case r of
              Quoted \<Rightarrow> (\<exists>s. v = JStr s \<and> p = q @ ''='' @ quote s)
            | Lowered \<Rightarrow> (\<forall>b. v = JBool b \<longrightarrow> p = q @ ''='' @ (if b then ''true'' else ''false''))
            | Plain \<Rightarrow> p = q @ ''='' @ py_str v)"
proof -
  from assms obtain v t where v: "map_of args k = Some v" and t: "render env r v = Inr t"
    and p: "p = q @ ''='' @ t"
    by (auto split: option.splits sum.splits)
  show ?thesis
  proof (cases r)
    case Quoted
    with t obtain s where "v = JStr s" "t = quote s" by (cases v) auto
    with v p Quoted show ?thesis by simp
  next
    case Lowered
    with t have "t = lower (lower_non_ascii env) (py_str v)" by simp
    with v p Lowered show ?thesis by (auto simp: lower_True lower_False)
  next
    case Plain
    with t v p show ?thesis by auto
  qed
qed


lemma build_url_values:
  assumes "build_url env base req opt args = Inr url"
  shows "\<exists>ps. url = base @ ''?'' @ join ''&'' ps \<and>
           list_all2 (\<lambda>(k, q, r) p. \<exists>v. map_of args k = Some v \<and>
                 (case r of
                    Quoted \<Rightarrow> (\<exists>s. v = JStr s \<and> p = q @ ''='' @ quote s)
                  | Lowered \<Rightarrow>
                      (\<forall>b. v = JBool b \<longrightarrow> p = q @ ''='' @ (if b then ''true'' else ''false''))
                  | Plain \<Rightarrow> p = q @ ''='' @ py_str v))
             (present args (req @ opt)) ps"
proof -
  from build_url_fields [OF assms] obtain ps where
    u: "url = base @ ''?'' @ join ''&'' ps"
    and e: "list_all2 (entry env args) (present args (req @ opt)) ps"
    by blast
  have "list_all2 (\<lambda>(k, q, r) p. \<exists>v. map_of args k = Some v \<and>
                 (case r of
                    Quoted \<Rightarrow> (\<exists>s. v = JStr s \<and> p = q @ ''='' @ quote s)
                  | Lowered \<Rightarrow>
                      (\<forall>b. v = JBool b \<longrightarrow> p = q @ ''='' @ (if b then ''true'' else ''false''))
                  | Plain \<Rightarrow> p = q @ ''='' @ py_str v))
             (present args (req @ opt)) ps"
    using e
  proof (rule list_all2_mono)
    fix f p assume "entry env args f p"
    then show "(case f of (k, q, r) \<Rightarrow> \<lambda>p. \<exists>v. map_of args k = Some v \<and>
                 (case r of
                    Quoted \<Rightarrow> (\<exists>s. v = JStr s \<and> p = q @ ''='' @ quote s)
                  | Lowered \<Rightarrow>
                      (\<forall>b. v = JBool b \<longrightarrow> p = q @ ''='' @ (if b then ''true'' else ''false''))
                  | Plain \<Rightarrow> p = q @ ''='' @ py_str v)) p"
      by (cases f) (simp only: prod.case entry_value)
  qed
  with u show ?thesis by blast
qed

section \<open>The query of create-agenda-note\<close>

lemma create_note_url_example:
  assumes a: "map_of args ''title'' = Some (JStr ''A B'') \<and> map_of args ''text'' = Some (JStr ''C'')
      \<and> dom (map_of args) = {''title'', ''text''}"
  shows "create_note_url env args = Inr ''agenda://x-callback-url/create-note?title=A%20B&text=C''"
proof -
  have none: "map_of args k = None" if "k \<noteq> ''title''" "k \<noteq> ''text''" for k
  proof -
    from that a have "k \<notin> dom (map_of args)" by simp
    then show ?thesis by (simp add: domIff)
  qed
  from a show ?thesis
    by (simp add: create_note_url_def build_url_def create_note_required_def
        create_note_optional_def none quote_A_B quote_C)
qed

lemma create_note_url_total:
  assumes a: "(\<exists>t. map_of args ''title'' = Some (JStr t)) \<and> (\<exists>x. map_of args ''text'' = Some (JStr x))
        \<and> (\<forall>k \<in> {''project_title'', ''date'', ''start_date'', ''end_date'', ''template_name'',
                   ''template_input''}. \<forall>v. map_of args k = Some v \<longrightarrow> (\<exists>s. v = JStr s))"
  shows "\<exists>url. create_note_url env args = Inr url"
proof -
  have 1: "list_all (\<lambda>f. map_of args (fst f) \<noteq> None \<and> can_render args f) create_note_required"
    using a by (auto simp: create_note_required_def)
  have 2: "list_all (can_render args) create_note_optional"
    unfolding create_note_optional_def using a by (simp add: can_render_simps del: can_render.simps)
  from build_url_total [OF 1 2] show "\<exists>url. create_note_url env args = Inr url"
    by (simp add: create_note_url_def)
qed

text \<open>Cutting a joined list at the separator gives the list back when no part holds it.\<close>

lemma split_on_plain: "c \<notin> set p \<Longrightarrow> split_on c p = [p]"
  by (induction p) auto

lemma split_on_append: "c \<notin> set p \<Longrightarrow> split_on c (p @ c # rest) = p # split_on c rest"
  by (induction p) auto

lemma split_on_join:
  "ps \<noteq> [] \<Longrightarrow> \<forall>p \<in> set ps. c \<notin> set p \<Longrightarrow> split_on c (join [c] ps) = ps"
proof (induction ps)
  case Nil
  then show ?case by simp
next
  case (Cons p ps)
  show ?case
  proof (cases ps)
    case Nil
    with Cons.prems show ?thesis by (simp add: split_on_plain)
  next
    case (Cons q qs)
    with Cons.prems Cons.IH have "split_on c (join [c] ps) = ps" by simp
    with Cons Cons.prems show ?thesis by (simp add: split_on_append)
  qed
qed

lemma quote_no_ampersand: "CHR ''&'' \<notin> set (quote s)"
proof -
  have "CHR ''&'' \<notin> set always_safe \<union> {CHR ''/'', CHR ''%''}"
    by (simp add: always_safe_def)
  with quote_chars [of s] show ?thesis by blast
qed

lemma mapped_entries:
  "list_all2 (\<lambda>x y. y = g x) xs ys \<Longrightarrow> ys = map g xs"
  by (induction rule: list_all2_induct) simp_all

text \<open>
  The fields of \<^verbatim>\<open>create-agenda-note\<close>: none is rendered bare, the lowered ones are the
  six boolean fields of the schema, and no query name holds \<^verbatim>\<open>=\<close> or \<^verbatim>\<open>&\<close>.
\<close>

lemma create_note_fields:
  "\<forall>f \<in> set (create_note_required @ create_note_optional).
     (case f of (k, q, r) \<Rightarrow>
        r \<noteq> Plain
        \<and> (r = Lowered \<longrightarrow> k \<in> {''on_the_agenda'', ''collapsed'', ''completed'', ''pinned'',
                                   ''footnote'', ''select''})
        \<and> CHR ''='' \<notin> set q \<and> CHR ''&'' \<notin> set q)"
  by (simp add: create_note_required_def create_note_optional_def)

lemma create_note_url_params:
  assumes url: "create_note_url env args = Inr url"
    and bools: "\<forall>k \<in> {''on_the_agenda'', ''collapsed'', ''completed'', ''pinned'', ''footnote'',
                  ''select''}. \<forall>v. map_of args k = Some v \<longrightarrow> (\<exists>b. v = JBool b)"
  shows "\<exists>query. url = ''agenda://x-callback-url/create-note?'' @ query
      \<and> split_on CHR ''&'' query =
          map (\<lambda>(k, q, r). q @ ''='' @
                 (case map_of args k of
                    Some (JStr s) \<Rightarrow> quote s
                  | Some (JBool b) \<Rightarrow> (if b then ''true'' else ''false'')
                  | _ \<Rightarrow> []))
            (present args (create_note_required @ create_note_optional))
      \<and> map param_name (split_on CHR ''&'' query) =
          map (\<lambda>f. fst (snd f)) (present args (create_note_required @ create_note_optional))
      \<and> present args (create_note_required @ create_note_optional) =
          create_note_required @ present args create_note_optional"
proof -
  let ?fs = "present args (create_note_required @ create_note_optional)"
  let ?g = "\<lambda>(k, q, r). q @ ''='' @
                 (case map_of args k of
                    Some (JStr s) \<Rightarrow> quote s
                  | Some (JBool b) \<Rightarrow> (if b then ''true'' else ''false'')
                  | _ \<Rightarrow> [])"
  from build_url_shape [OF url [unfolded create_note_url_def]] obtain ps where
    u: "url = ''agenda://x-callback-url/create-note'' @ ''?'' @ join ''&'' ps"
    and e0: "list_all2 (entry env args) (create_note_required @ present args create_note_optional) ps"
    by blast
  from e0 have "list_all2 (entry env args) create_note_required (take (length create_note_required) ps)"
    by (auto simp: list_all2_append1)
  then have req: "present args create_note_required = create_note_required"
    by (rule entries_present)
  then have fs: "?fs = create_note_required @ present args create_note_optional"
    by (simp add: present_append)
  with e0 have e: "list_all2 (entry env args) ?fs ps" by simp
  have sub: "set ?fs \<subseteq> set (create_note_required @ create_note_optional)"
    by (rule present_subset)
  have "list_all2 (\<lambda>f p. p = ?g f) ?fs ps"
    using e
  proof (rule list.rel_mono_strong)
    fix f p assume f: "f \<in> set ?fs" and en: "entry env args f p"
    obtain k q r where kqr: "f = (k, q, r)" by (cases f)
    from f sub kqr have "(k, q, r) \<in> set (create_note_required @ create_note_optional)"
      by auto
    note create_note_fields [rule_format, OF this, unfolded prod.case]
    then have r: "r \<noteq> Plain" "r = Lowered \<longrightarrow> k \<in> {''on_the_agenda'', ''collapsed'', ''completed'',
        ''pinned'', ''footnote'', ''select''}"
      by (rule conjunct1, rule conjunct2 [THEN conjunct1])
    from entry_value [OF en [unfolded kqr]] obtain v where v: "map_of args k = Some v"
      and c: "(case r of
              Quoted \<Rightarrow> (\<exists>s. v = JStr s \<and> p = q @ ''='' @ quote s)
            | Lowered \<Rightarrow> (\<forall>b. v = JBool b \<longrightarrow> p = q @ ''='' @ (if b then ''true'' else ''false''))
            | Plain \<Rightarrow> p = q @ ''='' @ py_str v)"
      by blast
    show "p = ?g f"
    proof (cases r)
      case Quoted
      with c v kqr show ?thesis by auto
    next
      case Lowered
      from r(2) Lowered have "k \<in> {''on_the_agenda'', ''collapsed'', ''completed'', ''pinned'',
          ''footnote'', ''select''}"
        by (rule mp)
      from bools [rule_format, OF this v] obtain b where "v = JBool b" ..
      with c v kqr Lowered show ?thesis by simp
    next
      case Plain
      with r(1) show ?thesis by simp
    qed
  qed
  then have ps: "ps = map ?g ?fs" by (rule mapped_entries)
  have amp: "\<forall>p \<in> set ps. CHR ''&'' \<notin> set p"
  proof
    fix p assume "p \<in> set ps"
    with ps obtain f where f: "f \<in> set ?fs" and p: "p = ?g f" by auto
    obtain k q r where kqr: "f = (k, q, r)" by (cases f)
    from f sub kqr have "(k, q, r) \<in> set (create_note_required @ create_note_optional)"
      by auto
    note create_note_fields [rule_format, OF this, unfolded prod.case]
    then have "CHR ''&'' \<notin> set q"
      by (rule conjunct2 [THEN conjunct2, THEN conjunct2])
    with p kqr show "CHR ''&'' \<notin> set p"
      by (auto simp: quote_no_ampersand split: option.splits jvalue.splits)
  qed
  have "?fs \<noteq> []" unfolding fs by (simp add: create_note_required_def)
  with ps have "ps \<noteq> []" by simp
  from split_on_join [OF this amp] have split: "split_on CHR ''&'' (join ''&'' ps) = ps"
    by simp
  have "\<forall>f \<in> set ?fs. CHR ''='' \<notin> set (fst (snd f))"
  proof
    fix f assume "f \<in> set ?fs"
    with sub have "f \<in> set (create_note_required @ create_note_optional)" by auto
    note create_note_fields [rule_format, OF this, unfolded case_prod_beta]
    then show "CHR ''='' \<notin> set (fst (snd f))"
      by (rule conjunct2 [THEN conjunct2, THEN conjunct1])
  qed
  from entries_param_names [OF e this]
  have names: "map param_name ps = map (\<lambda>f. fst (snd f)) ?fs" .
  have "url = ''agenda://x-callback-url/create-note?'' @ join ''&'' ps"
    using u by simp
  with split ps names fs show ?thesis
    by (intro exI [of _ "join ''&'' ps"]) (simp only: simp_thms)
qed

lemma create_note_names:
  "map (\<lambda>f. fst (snd f)) (create_note_required @ present args create_note_optional) =
      ''title'' # ''text'' #
      map snd (filter (\<lambda>(k, q). k \<in> dom (map_of args))
                  [(''project_title'', ''project-title''), (''on_the_agenda'', ''on-the-agenda''),
                   (''date'', ''date''), (''start_date'', ''start-date''), (''end_date'', ''end-date''),
                   (''template_name'', ''template-name''), (''template_input'', ''template-input''),
                   (''collapsed'', ''collapsed''), (''completed'', ''completed''),
                   (''pinned'', ''pinned''), (''footnote'', ''footnote''), (''select'', ''select'')])"
proof -
  have req: "map (\<lambda>f. fst (snd f)) create_note_required = [''title'', ''text'']"
    by (simp add: create_note_required_def)
  have opt: "map (\<lambda>f. fst (snd f)) (present args create_note_optional) =
      map snd (filter (\<lambda>(k, q). k \<in> dom (map_of args))
                  [(''project_title'', ''project-title''), (''on_the_agenda'', ''on-the-agenda''),
                   (''date'', ''date''), (''start_date'', ''start-date''), (''end_date'', ''end-date''),
                   (''template_name'', ''template-name''), (''template_input'', ''template-input''),
                   (''collapsed'', ''collapsed''), (''completed'', ''completed''),
                   (''pinned'', ''pinned''), (''footnote'', ''footnote''), (''select'', ''select'')])"
    unfolding present_names create_note_optional_def by (simp only: list.map prod.case)
  show ?thesis unfolding map_append req opt by (simp only: append_Cons append_Nil)
qed

lemma create_note_url_split:
  assumes "create_note_url env args = Inr url
          \<and> (\<forall>k \<in> {''on_the_agenda'', ''collapsed'', ''completed'', ''pinned'', ''footnote'',
                     ''select''}. \<forall>v. map_of args k = Some v \<longrightarrow> (\<exists>b. v = JBool b))"
  shows "\<exists>query. url = ''agenda://x-callback-url/create-note?'' @ query
            \<and> split_on CHR ''&'' query =
                map (\<lambda>(k, q, r). q @ ''='' @
                       (case map_of args k of
                          Some (JStr s) \<Rightarrow> quote s
                        | Some (JBool b) \<Rightarrow> (if b then ''true'' else ''false'')
                        | _ \<Rightarrow> []))
                  (present args (create_note_required @ create_note_optional))
            \<and> map param_name (split_on CHR ''&'' query) =
                ''title'' # ''text'' #
                map snd (filter (\<lambda>(k, q). k \<in> dom (map_of args))
                  [(''project_title'', ''project-title''), (''on_the_agenda'', ''on-the-agenda''),
                   (''date'', ''date''), (''start_date'', ''start-date''), (''end_date'', ''end-date''),
                   (''template_name'', ''template-name''), (''template_input'', ''template-input''),
                   (''collapsed'', ''collapsed''), (''completed'', ''completed''),
                   (''pinned'', ''pinned''), (''footnote'', ''footnote''), (''select'', ''select'')])"
proof -
  from assms have url: "create_note_url env args = Inr url" by (rule conjunct1)
  from assms have bools: "\<forall>k \<in> {''on_the_agenda'', ''collapsed'', ''completed'', ''pinned'',
      ''footnote'', ''select''}. \<forall>v. map_of args k = Some v \<longrightarrow> (\<exists>b. v = JBool b)"
    by (rule conjunct2)
  from create_note_url_params [OF url bools] obtain query where
    q: "url = ''agenda://x-callback-url/create-note?'' @ query
      \<and> split_on CHR ''&'' query =
          map (\<lambda>(k, q, r). q @ ''='' @
                       (case map_of args k of
                          Some (JStr s) \<Rightarrow> quote s
                        | Some (JBool b) \<Rightarrow> (if b then ''true'' else ''false'')
                        | _ \<Rightarrow> []))
            (present args (create_note_required @ create_note_optional))
      \<and> map param_name (split_on CHR ''&'' query) =
          map (\<lambda>f. fst (snd f)) (present args (create_note_required @ create_note_optional))
      \<and> present args (create_note_required @ create_note_optional) =
          create_note_required @ present args create_note_optional" ..
  note q1 = q [THEN conjunct1]
  note q2 = q [THEN conjunct2, THEN conjunct1]
  note q3 = q [THEN conjunct2, THEN conjunct2, THEN conjunct1]
  note q4 = q [THEN conjunct2, THEN conjunct2, THEN conjunct2]
  have "map param_name (split_on CHR ''&'' query) =
          map (\<lambda>f. fst (snd f)) (create_note_required @ present args create_note_optional)"
    using q3 by (simp only: q4)
  then have q5: "map param_name (split_on CHR ''&'' query) =
      ''title'' # ''text'' #
      map snd (filter (\<lambda>(k, q). k \<in> dom (map_of args))
                  [(''project_title'', ''project-title''), (''on_the_agenda'', ''on-the-agenda''),
                   (''date'', ''date''), (''start_date'', ''start-date''), (''end_date'', ''end-date''),
                   (''template_name'', ''template-name''), (''template_input'', ''template-input''),
                   (''collapsed'', ''collapsed''), (''completed'', ''completed''),
                   (''pinned'', ''pinned''), (''footnote'', ''footnote''), (''select'', ''select'')])"
    by (simp only: create_note_names)
  show ?thesis
    by (rule exI [of _ query]) (intro conjI q1 q2 q5)
qed

text \<open>
  Claim C1, as stated, fails: the values of the boolean fields go into the query
  through \<^verbatim>\<open>str(v).lower()\<close> without encoding, so a string there can bring its own
  \<^verbatim>\<open>&\<close>. With \<^verbatim>\<open>pinned\<close> set to the string \<^verbatim>\<open>a&select=true\<close> the query has a parameter
  \<^verbatim>\<open>select\<close> although the bag has no key \<^verbatim>\<open>select\<close>.
\<close>

theorem create_note_url_query_counterexample:
  "create_note_url quiet
       [(''title'', JStr ''T''), (''text'', JStr ''X''), (''pinned'', JStr ''a&select=true'')]
     = Inr ''agenda://x-callback-url/create-note?title=T&text=X&pinned=a&select=true''
   \<and> map_of [(''title'', JStr ''T''), (''text'', JStr ''X''), (''pinned'', JStr ''a&select=true'')]
       ''select'' = None
   \<and> map param_name (split_on CHR ''&'' ''title=T&text=X&pinned=a&select=true'')
     = [''title'', ''text'', ''pinned'', ''select'']"
proof -
  have l: "lower low ''a&select=true'' = ''a&select=true''" for low
    by (simp add: lower_def is_ascii_def lower_char_def)
  have q: "quote ''T'' = ''T''" "quote ''X'' = ''X''"
    by (simp_all add: quote_def quote_byte_def always_safe_def)
  have "create_note_url quiet
       [(''title'', JStr ''T''), (''text'', JStr ''X''), (''pinned'', JStr ''a&select=true'')]
     = Inr ''agenda://x-callback-url/create-note?title=T&text=X&pinned=a&select=true''"
    by (simp add: create_note_url_def build_url_def create_note_required_def
        create_note_optional_def q l)
  moreover have "split_on CHR ''&'' ''title=T&text=X&pinned=a&select=true''
     = [''title=T'', ''text=X'', ''pinned=a'', ''select=true'']"
    by simp
  then have "map param_name (split_on CHR ''&'' ''title=T&text=X&pinned=a&select=true'')
     = [''title'', ''text'', ''pinned'', ''select'']"
    by (simp add: param_name_def)
  ultimately show ?thesis by simp
qed

text \<open>
  Claim C1, amended. With exactly \<^verbatim>\<open>title="A B"\<close> and \<^verbatim>\<open>text="C"\<close> in the bag, the URL of
  \<^verbatim>\<open>create-agenda-note\<close> is \<^verbatim>\<open>agenda://x-callback-url/create-note?title=A%20B&text=C\<close>.
  Whenever the URL is built for a bag whose six boolean fields hold booleans where they
  are present, the query cut at \<^verbatim>\<open>&\<close> is the list of one \<^verbatim>\<open>name=value\<close> per field
  whose key is in the bag (strings percent-encoded, booleans as \<^verbatim>\<open>true\<close> or \<^verbatim>\<open>false\<close>):
  \<^verbatim>\<open>title\<close>, \<^verbatim>\<open>text\<close> and then, in the order of the source, the optional names whose key
  is in the bag and no other. The URL is built whenever \<^verbatim>\<open>title\<close>, \<^verbatim>\<open>text\<close> and the
  optional string fields that are present hold strings.
\<close>

theorem create_note_url_query:
  "(map_of args ''title'' = Some (JStr ''A B'') \<and> map_of args ''text'' = Some (JStr ''C'')
      \<and> dom (map_of args) = {''title'', ''text''}
     \<longrightarrow> create_note_url env args
           = Inr ''agenda://x-callback-url/create-note?title=A%20B&text=C'')
   \<and> (\<forall>url. create_note_url env args = Inr url
          \<and> (\<forall>k \<in> {''on_the_agenda'', ''collapsed'', ''completed'', ''pinned'', ''footnote'',
                     ''select''}. \<forall>v. map_of args k = Some v \<longrightarrow> (\<exists>b. v = JBool b))
        \<longrightarrow>
         (\<exists>query. url = ''agenda://x-callback-url/create-note?'' @ query
            \<and> split_on CHR ''&'' query =
                map (\<lambda>(k, q, r). q @ ''='' @
                       (case map_of args k of
                          Some (JStr s) \<Rightarrow> quote s
                        | Some (JBool b) \<Rightarrow> (if b then ''true'' else ''false'')
                        | _ \<Rightarrow> []))
                  (present args (create_note_required @ create_note_optional))
            \<and> map param_name (split_on CHR ''&'' query) =
                ''title'' # ''text'' #
                map snd (filter (\<lambda>(k, q). k \<in> dom (map_of args))
                  [(''project_title'', ''project-title''), (''on_the_agenda'', ''on-the-agenda''),
                   (''date'', ''date''), (''start_date'', ''start-date''), (''end_date'', ''end-date''),
                   (''template_name'', ''template-name''), (''template_input'', ''template-input''),
                   (''collapsed'', ''collapsed''), (''completed'', ''completed''),
                   (''pinned'', ''pinned''), (''footnote'', ''footnote''), (''select'', ''select'')])))
   \<and> ((\<exists>t. map_of args ''title'' = Some (JStr t)) \<and> (\<exists>x. map_of args ''text'' = Some (JStr x))
        \<and> (\<forall>k \<in> {''project_title'', ''date'', ''start_date'', ''end_date'', ''template_name'',
                   ''template_input''}. \<forall>v. map_of args k = Some v \<longrightarrow> (\<exists>s. v = JStr s))
     \<longrightarrow> (\<exists>url. create_note_url env args = Inr url))"
  apply (intro conjI impI allI)
    apply (erule create_note_url_example)
   apply (erule create_note_url_split)
  apply (erule create_note_url_total)
  done

theorem create_note_url_query_witness:
  "create_note_url quiet [(''title'', JStr ''A B''), (''text'', JStr ''C'')] =
     Inr ''agenda://x-callback-url/create-note?title=A%20B&text=C''
   \<and> (\<exists>query. ''agenda://x-callback-url/create-note?title=T&text=X&date=2025-01-31&select=true'' =
           ''agenda://x-callback-url/create-note?'' @ query
         \<and> split_on CHR ''&'' query =
             [''title=T'', ''text=X'', ''date=2025-01-31'', ''select=true'']
         \<and> map param_name (split_on CHR ''&'' query) = [''title'', ''text'', ''date'', ''select''])"
proof
  let ?a = "[(''title'', JStr ''A B''), (''text'', JStr ''C'')]"
  have h: "map_of ?a ''title'' = Some (JStr ''A B'') \<and> map_of ?a ''text'' = Some (JStr ''C'')
      \<and> dom (map_of ?a) = {''title'', ''text''}"
    by auto
  from create_note_url_query [where args = ?a and env = quiet, THEN conjunct1, rule_format, OF h]
  show "create_note_url quiet ?a = Inr ''agenda://x-callback-url/create-note?title=A%20B&text=C''" .
next
  let ?b = "[(''select'', JBool True), (''title'', JStr ''T''), (''date'', JStr ''2025-01-31''),
             (''text'', JStr ''X'')]"
  have q: "quote ''T'' = ''T''" "quote ''X'' = ''X''" "quote ''2025-01-31'' = ''2025-01-31''"
    by (simp_all add: quote_def quote_byte_def always_safe_def)
  have u: "create_note_url quiet ?b =
      Inr ''agenda://x-callback-url/create-note?title=T&text=X&date=2025-01-31&select=true''"
    by (simp add: create_note_url_def build_url_def create_note_required_def
        create_note_optional_def q lower_True)
  have b: "\<forall>k \<in> {''on_the_agenda'', ''collapsed'', ''completed'', ''pinned'', ''footnote'',
                     ''select''}. \<forall>v. map_of ?b k = Some v \<longrightarrow> (\<exists>b. v = JBool b)"
    by auto
  have p: "present ?b (create_note_required @ create_note_optional) =
      [(''title'', ''title'', Quoted), (''text'', ''text'', Quoted), (''date'', ''date'', Quoted),
       (''select'', ''select'', Lowered)]"
    by (simp add: present_def create_note_required_def create_note_optional_def)
  note create_note_url_query [where args = ?b and env = quiet, THEN conjunct2, THEN conjunct1,
      rule_format, OF conjI [OF u b], unfolded p]
  then show "\<exists>query. ''agenda://x-callback-url/create-note?title=T&text=X&date=2025-01-31&select=true'' =
           ''agenda://x-callback-url/create-note?'' @ query
         \<and> split_on CHR ''&'' query =
             [''title=T'', ''text=X'', ''date=2025-01-31'', ''select=true'']
         \<and> map param_name (split_on CHR ''&'' query) = [''title'', ''text'', ''date'', ''select'']"
    by (simp add: q)
qed

section \<open>The note store under add-note\<close>

lemma map_of_dict_set: "map_of (dict_set d k v) = (map_of d)(k \<mapsto> v)"
  by (induction d k v rule: dict_set.induct) (auto simp: fun_eq_iff)

lemma keys_dict_set:
  "map fst (dict_set d k v) = (if k \<in> set (map fst d) then map fst d else map fst d @ [k])"
  by (induction d k v rule: dict_set.induct) auto

lemma length_dict_set:
  "length (dict_set d k v) = (if k \<in> set (map fst d) then length d else Suc (length d))"
  using keys_dict_set [of d k v, THEN arg_cong, of length] by (simp split: if_splits)

lemma add_note_cases:
  "add_note env s (Some a) =
     (if a = [] then (Inl (ValueError ''Missing arguments''), s)
      else if \<not> truthy (get a ''name'') \<or> \<not> truthy (get a ''content'')
      then (Inl (ValueError ''Missing name or content''), s)
      else (case send_changed env
                   (s\<lparr>notes_store := dict_set (notes_store s) (get a ''name'') (get a ''content'')\<rparr>) of
              Some e \<Rightarrow>
                (Inl (SendError e),
                 s\<lparr>notes_store := dict_set (notes_store s) (get a ''name'') (get a ''content'')\<rparr>)
            | None \<Rightarrow>
                (Inr [TextContent (''Added note '' @ [CHR 0x27] @ py_str (get a ''name'') @ [CHR 0x27]
                           @ '' with content: '' @ py_str (get a ''content''))],
                 s\<lparr>notes_store := dict_set (notes_store s) (get a ''name'') (get a ''content''),
                   notifications := Suc (notifications s)\<rparr>)))"
  by (simp add: add_note_def Let_def split: option.splits)

lemma add_note_success:
  assumes "handle_call_tool env s ''add-note'' (Some a) = (r, s')" "succeeded r"
  shows "s' = s\<lparr>notes_store := dict_set (notes_store s) (get a ''name'') (get a ''content''),
              notifications := Suc (notifications s)\<rparr>"
  using assms
  by (auto simp: handle_call_tool_def add_note_cases succeeded_def split: if_splits option.splits)

lemma add_note_calls_store:
  assumes "call_tools env s (add_note_calls bags) = (rs, s')"
    and "list_all succeeded rs"
    and "distinct (map (\<lambda>a. get a ''name'') bags)"
    and "\<forall>a \<in> set bags. get a ''name'' \<notin> set (map fst (notes_store s))"
  shows "length (notes_store s') = length (notes_store s) + length bags
    \<and> (\<forall>a \<in> set bags. map_of (notes_store s') (get a ''name'') = Some (get a ''content''))
    \<and> (\<forall>k. k \<notin> (\<lambda>a. get a ''name'') ` set bags \<longrightarrow> map_of (notes_store s') k = map_of (notes_store s) k)"
  using assms
proof (induction bags arbitrary: s rs)
  case Nil
  then show ?case by (simp add: add_note_calls_def)
next
  case (Cons a bags)
  obtain r s1 where h: "handle_call_tool env s ''add-note'' (Some a) = (r, s1)"
    by (cases "handle_call_tool env s ''add-note'' (Some a)")
  obtain rs1 where t: "call_tools env s1 (add_note_calls bags) = (rs1, s')" and rs: "rs = r # rs1"
    using Cons.prems(1) h by (auto simp: add_note_calls_def split: prod.splits)
  from Cons.prems(2) rs have ok: "succeeded r" "list_all succeeded rs1" by simp_all
  from add_note_success [OF h ok(1)]
  have s1: "notes_store s1 = dict_set (notes_store s) (get a ''name'') (get a ''content'')"
    by simp
  have fresh: "get a ''name'' \<notin> set (map fst (notes_store s))"
    using Cons.prems(4) by simp
  have keys1: "set (map fst (notes_store s1)) = insert (get a ''name'') (set (map fst (notes_store s)))"
    unfolding s1 keys_dict_set by auto
  have d: "distinct (map (\<lambda>a. get a ''name'') bags)" using Cons.prems(3) by simp
  have f: "\<forall>b \<in> set bags. get b ''name'' \<notin> set (map fst (notes_store s1))"
    unfolding keys1 using Cons.prems(3,4) by (auto simp: image_iff)
  note IH = Cons.IH [OF t ok(2) d f]
  have len: "length (notes_store s1) = Suc (length (notes_store s))"
    unfolding s1 length_dict_set using fresh by simp
  have a_not: "get a ''name'' \<notin> (\<lambda>a. get a ''name'') ` set bags"
    using Cons.prems(3) by auto
  have a_val: "map_of (notes_store s') (get a ''name'') = Some (get a ''content'')"
    using IH a_not by (simp add: s1 map_of_dict_set)
  have other: "map_of (notes_store s') k = map_of (notes_store s) k"
    if "k \<notin> (\<lambda>a. get a ''name'') ` set (a # bags)" for k
    using IH that by (simp add: s1 map_of_dict_set)
  show ?case using IH len a_val other by simp
qed


lemma add_note_overwrite:
  assumes "handle_call_tool env s ''add-note'' (Some a) = (r, s')" "succeeded r"
    and "get a ''name'' \<in> set (map fst (notes_store s))"
  shows "length (notes_store s') = length (notes_store s)
    \<and> map fst (notes_store s') = map fst (notes_store s)
    \<and> map_of (notes_store s') (get a ''name'') = Some (get a ''content'')
    \<and> (\<forall>k. k \<noteq> get a ''name'' \<longrightarrow> map_of (notes_store s') k = map_of (notes_store s) k)"
proof -
  from add_note_success [OF assms(1,2)]
  have s': "notes_store s' = dict_set (notes_store s) (get a ''name'') (get a ''content'')"
    by simp
  show ?thesis
    unfolding s' using assms(3) by (simp add: length_dict_set keys_dict_set map_of_dict_set)
qed

lemma add_note_calls_succeed:
  "list_all (\<lambda>a. a \<noteq> [] \<and> truthy (get a ''name'') \<and> truthy (get a ''content'')) bags \<Longrightarrow>
     \<forall>s. send_changed env s = None \<Longrightarrow>
     list_all succeeded (fst (call_tools env s (add_note_calls bags)))"
proof (induction bags arbitrary: s)
  case Nil
  then show ?case by (simp add: add_note_calls_def)
next
  case (Cons a bags)
  then have a: "a \<noteq> []" "truthy (get a ''name'')" "truthy (get a ''content'')" by simp_all
  obtain r s1 where h: "handle_call_tool env s ''add-note'' (Some a) = (r, s1)"
    by (cases "handle_call_tool env s ''add-note'' (Some a)")
  with a Cons.prems(2) have "succeeded r"
    by (auto simp: handle_call_tool_def add_note_cases succeeded_def)
  moreover from Cons have "list_all succeeded (fst (call_tools env s1 (add_note_calls bags)))"
    by simp
  ultimately show ?case
    using h by (auto simp: add_note_calls_def split: prod.splits)
qed

lemma add_note_calls_from_empty:
  assumes "notes_store s = []" "call_tools env s (add_note_calls bags) = (rs, s')"
    "list_all succeeded rs" "distinct (map (\<lambda>a. get a ''name'') bags)"
  shows "length (notes_store s') = length bags"
    and "\<forall>a \<in> set bags. map_of (notes_store s') (get a ''name'') = Some (get a ''content'')"
proof -
  from assms(1) have "\<forall>a \<in> set bags. get a ''name'' \<notin> set (map fst (notes_store s))" by simp
  from add_note_calls_store [OF assms(2,3,4) this] assms(1)
  show "length (notes_store s') = length bags"
    and "\<forall>a \<in> set bags. map_of (notes_store s') (get a ''name'') = Some (get a ''content'')"
    by simp_all
qed

text \<open>
  Claim C2. Starting from the empty store, after a run of \<^verbatim>\<open>add-note\<close> calls that all
  returned and whose names are pairwise distinct, the store has one entry per call and
  each name maps to the content given with it. A call that returns and whose name is
  already in the store keeps the number of entries, the keys and their order, gives the
  name its new content and leaves every other entry alone. Calls with a non-empty bag
  and non-empty name and content all return when the session sends every notification.
\<close>

theorem add_note_store:
  "(\<forall>rs s'. notes_store s = [] \<and> call_tools env s (add_note_calls bags) = (rs, s')
        \<and> list_all succeeded rs \<and> distinct (map (\<lambda>a. get a ''name'') bags)
      \<longrightarrow> length (notes_store s') = length bags
        \<and> (\<forall>a \<in> set bags. map_of (notes_store s') (get a ''name'') = Some (get a ''content'')))
   \<and> (\<forall>a r s'. handle_call_tool env s ''add-note'' (Some a) = (r, s') \<and> succeeded r
        \<and> get a ''name'' \<in> set (map fst (notes_store s))
      \<longrightarrow> length (notes_store s') = length (notes_store s)
        \<and> map fst (notes_store s') = map fst (notes_store s)
        \<and> map_of (notes_store s') (get a ''name'') = Some (get a ''content'')
        \<and> (\<forall>k. k \<noteq> get a ''name'' \<longrightarrow> map_of (notes_store s') k = map_of (notes_store s) k))
   \<and> (list_all (\<lambda>a. a \<noteq> [] \<and> truthy (get a ''name'') \<and> truthy (get a ''content'')) bags
        \<and> (\<forall>s. send_changed env s = None)
      \<longrightarrow> list_all succeeded (fst (call_tools env s (add_note_calls bags))))"
  using add_note_calls_from_empty [of s env bags] add_note_overwrite [of env s]
    add_note_calls_succeed [of bags env s]
  by blast


theorem add_note_store_witness:
  "length (notes_store (snd (call_tools quiet
       \<lparr>notes_store = [], opened = [], notifications = 0\<rparr>
       (add_note_calls [[(''name'', JStr ''foo''), (''content'', JStr ''bar'')],
                        [(''content'', JStr ''qux''), (''name'', JStr ''baz'')]])))) = 2
   \<and> map_of (notes_store (snd (call_tools quiet
       \<lparr>notes_store = [], opened = [], notifications = 0\<rparr>
       (add_note_calls [[(''name'', JStr ''foo''), (''content'', JStr ''bar'')],
                        [(''content'', JStr ''qux''), (''name'', JStr ''baz'')]])))) (JStr ''baz'')
       = Some (JStr ''qux'')
   \<and> length (notes_store (snd (handle_call_tool quiet
       \<lparr>notes_store = [(JStr ''foo'', JStr ''bar''), (JStr ''baz'', JStr ''qux'')],
        opened = [], notifications = 2\<rparr>
       ''add-note'' (Some [(''name'', JStr ''foo''), (''content'', JStr ''new'')])))) = 2"
proof -
  let ?s0 = "\<lparr>notes_store = [], opened = [], notifications = 0\<rparr>"
  let ?bags = "[[(''name'', JStr ''foo''), (''content'', JStr ''bar'')],
                [(''content'', JStr ''qux''), (''name'', JStr ''baz'')]]"
  let ?s2 = "\<lparr>notes_store = [(JStr ''foo'', JStr ''bar''), (JStr ''baz'', JStr ''qux'')],
        opened = [], notifications = 2\<rparr>"
  let ?a = "[(''name'', JStr ''foo''), (''content'', JStr ''new'')]"
  obtain rs s' where run: "call_tools quiet ?s0 (add_note_calls ?bags) = (rs, s')"
    by (cases "call_tools quiet ?s0 (add_note_calls ?bags)")
  have ok: "list_all succeeded (fst (call_tools quiet ?s0 (add_note_calls ?bags)))"
    using add_note_store [where s = ?s0 and env = quiet and bags = ?bags]
    by (simp add: get_def quiet_def)
  have "notes_store ?s0 = [] \<and> call_tools quiet ?s0 (add_note_calls ?bags) = (rs, s')
        \<and> list_all succeeded rs \<and> distinct (map (\<lambda>a. get a ''name'') ?bags)"
    using run ok by (simp add: get_def)
  with add_note_store [where s = ?s0 and env = quiet and bags = ?bags]
  have 1: "length (notes_store s') = length ?bags
        \<and> (\<forall>a \<in> set ?bags. map_of (notes_store s') (get a ''name'') = Some (get a ''content''))"
    by blast
  obtain r s3 where h: "handle_call_tool quiet ?s2 ''add-note'' (Some ?a) = (r, s3)"
    by (cases "handle_call_tool quiet ?s2 ''add-note'' (Some ?a)")
  then have "handle_call_tool quiet ?s2 ''add-note'' (Some ?a) = (r, s3) \<and> succeeded r
        \<and> get ?a ''name'' \<in> set (map fst (notes_store ?s2))"
    by (auto simp: handle_call_tool_def add_note_cases succeeded_def get_def quiet_def)
  with add_note_store [where s = ?s2 and env = quiet]
  have 2: "length (notes_store s3) = length (notes_store ?s2)"
    by blast
  from 1 2 show ?thesis
    unfolding run h by (simp add: get_def)
qed

text \<open>
  Claim C9, as stated, fails in its last part: the store is written before the
  notification is awaited, so a call whose notification cannot be sent raises, which is not
  the successful path, with the note already in the store.
\<close>

theorem add_note_send_failure_counterexample:
  "handle_call_tool (quiet\<lparr>send_changed := (\<lambda>s. Some ''closed'')\<rparr>)
       \<lparr>notes_store = [], opened = [], notifications = 0\<rparr>
       ''add-note'' (Some [(''name'', JStr ''foo''), (''content'', JStr ''bar'')])
     = (Inl (SendError ''closed''),
        \<lparr>notes_store = [(JStr ''foo'', JStr ''bar'')], opened = [], notifications = 0\<rparr>)"
  by (simp add: handle_call_tool_def add_note_cases get_def)

text \<open>
  Claim C9, amended. An \<^verbatim>\<open>add-note\<close> call that fails validation (no argument bag or an
  empty one, a missing or empty name, a missing or empty content) raises \<^verbatim>\<open>ValueError\<close> and
  leaves the whole state as it was: the note store, and the count of notifications sent.
  Every call that raises \<^verbatim>\<open>ValueError\<close> leaves the state as it was. A notification is sent
  only by a call that returns, which sends exactly one; the store is written only by a
  call that passed validation (it stays written when the notification then fails); no
  URL is opened.
\<close>

theorem add_note_invalid_keeps_state:
  "((arguments = None \<or> arguments = Some []
      \<or> (\<exists>a. arguments = Some a \<and>
            (map_of a ''name'' = None \<or> map_of a ''name'' = Some (JStr [])
             \<or> map_of a ''content'' = None \<or> map_of a ''content'' = Some (JStr []))))
     \<longrightarrow> (\<exists>msg. handle_call_tool env s ''add-note'' arguments = (Inl (ValueError msg), s)))
   \<and> (\<forall>r s'. handle_call_tool env s ''add-note'' arguments = (r, s') \<longrightarrow>
         ((\<exists>msg. r = Inl (ValueError msg)) \<longrightarrow> s' = s)
         \<and> (notifications s' \<noteq> notifications s \<longrightarrow> succeeded r)
         \<and> (succeeded r \<longrightarrow> notifications s' = Suc (notifications s))
         \<and> (notes_store s' \<noteq> notes_store s \<longrightarrow>
               (\<exists>a. arguments = Some a \<and> a \<noteq> [] \<and> truthy (get a ''name'')
                    \<and> truthy (get a ''content'')))
         \<and> opened s' = opened s)"
proof (cases arguments)
  case None
  then show ?thesis
    by (auto simp: handle_call_tool_def add_note_def succeeded_def)
next
  case (Some a)
  then show ?thesis
    by (auto simp: handle_call_tool_def add_note_cases succeeded_def get_def
        split: if_splits option.splits)
qed

theorem add_note_invalid_keeps_state_witness:
  "handle_call_tool quiet
       \<lparr>notes_store = [(JStr ''foo'', JStr ''bar'')], opened = [], notifications = 1\<rparr>
       ''add-note'' (Some [(''name'', JStr ''foo''), (''content'', JStr [])])
     = (Inl (ValueError ''Missing name or content''),
        \<lparr>notes_store = [(JStr ''foo'', JStr ''bar'')], opened = [], notifications = 1\<rparr>)
   \<and> notifications (snd (handle_call_tool quiet
       \<lparr>notes_store = [(JStr ''foo'', JStr ''bar'')], opened = [], notifications = 1\<rparr>
       ''add-note'' (Some [(''name'', JStr ''foo''), (''content'', JStr ''new'')]))) = 2"
proof -
  let ?s = "\<lparr>notes_store = [(JStr ''foo'', JStr ''bar'')], opened = [], notifications = 1\<rparr>"
  let ?bad = "Some [(''name'', JStr ''foo''), (''content'', JStr [])]"
  let ?good = "Some [(''name'', JStr ''foo''), (''content'', JStr ''new'')]"
  have "\<exists>a. ?bad = Some a \<and>
            (map_of a ''name'' = None \<or> map_of a ''name'' = Some (JStr [])
             \<or> map_of a ''content'' = None \<or> map_of a ''content'' = Some (JStr []))"
    by simp
  with add_note_invalid_keeps_state [where arguments = ?bad and env = quiet and s = ?s]
  obtain msg where m: "handle_call_tool quiet ?s ''add-note'' ?bad = (Inl (ValueError msg), ?s)"
    by blast
  then have 1: "handle_call_tool quiet ?s ''add-note'' ?bad
      = (Inl (ValueError ''Missing name or content''), ?s)"
    by (simp add: handle_call_tool_def add_note_cases get_def)
  obtain r s' where h: "handle_call_tool quiet ?s ''add-note'' ?good = (r, s')"
    by (cases "handle_call_tool quiet ?s ''add-note'' ?good")
  then have "succeeded r"
    by (auto simp: handle_call_tool_def add_note_cases succeeded_def get_def quiet_def)
  with h add_note_invalid_keeps_state [where arguments = ?good and env = quiet and s = ?s]
  have "notifications s' = Suc (notifications ?s)" by blast
  with 1 h show ?thesis by simp
qed

section \<open>Reading a resource\<close>

text \<open>
  Claim C4. \<^verbatim>\<open>read-resource\<close> on a URI whose scheme is not \<^verbatim>\<open>note\<close> raises
  \<^verbatim>\<open>ValueError\<close> (the validation error) with the scheme in its message; with scheme
  \<^verbatim>\<open>note\<close> and a name that is not in the store it raises the \<^verbatim>\<open>KeyError\<close> of the
  failed lookup (the not-found error), which carries the name; with a name that is in the
  store it returns the stored content as it is. A URI with scheme \<^verbatim>\<open>note\<close> and no path
  gives no name to look up: the handler raises \<^verbatim>\<open>ValueError\<close> with the text
  \<^verbatim>\<open>Note not found: None\<close>.
\<close>

theorem read_resource_cases:
  "(scheme u \<noteq> ''note'' \<longrightarrow>
      handle_read_resource s u = Inl (ValueError (''Unsupported URI scheme: '' @ scheme u)))
   \<and> (\<forall>p. scheme u = ''note'' \<and> path u = Some p
          \<and> map_of (notes_store s) (JStr (lstrip_slash p)) = None \<longrightarrow>
        handle_read_resource s u = Inl (KeyError (lstrip_slash p)))
   \<and> (\<forall>p c. scheme u = ''note'' \<and> path u = Some p
          \<and> map_of (notes_store s) (JStr (lstrip_slash p)) = Some c \<longrightarrow>
        handle_read_resource s u = Inr c)
   \<and> (scheme u = ''note'' \<and> path u = None \<longrightarrow>
        handle_read_resource s u = Inl (ValueError ''Note not found: None''))"
  by (simp add: handle_read_resource_def)

theorem read_resource_cases_witness:
  "handle_read_resource \<lparr>notes_store = [(JStr ''foo'', JStr ''bar'')], opened = [], notifications = 1\<rparr>
      \<lparr>scheme = ''other'', host = ''x'', path = None\<rparr>
     = Inl (ValueError ''Unsupported URI scheme: other'')
   \<and> handle_read_resource \<lparr>notes_store = [(JStr ''foo'', JStr ''bar'')], opened = [], notifications = 1\<rparr>
      \<lparr>scheme = ''note'', host = ''internal'', path = Some ''/missing''\<rparr>
     = Inl (KeyError ''missing'')
   \<and> handle_read_resource \<lparr>notes_store = [(JStr ''foo'', JStr ''bar'')], opened = [], notifications = 1\<rparr>
      \<lparr>scheme = ''note'', host = ''internal'', path = Some ''/foo''\<rparr>
     = Inr (JStr ''bar'')"
proof -
  let ?s = "\<lparr>notes_store = [(JStr ''foo'', JStr ''bar'')], opened = [], notifications = 1\<rparr>"
  let ?u1 = "\<lparr>scheme = ''other'', host = ''x'', path = None\<rparr>"
  let ?u2 = "\<lparr>scheme = ''note'', host = ''internal'', path = Some ''/missing''\<rparr>"
  let ?u3 = "\<lparr>scheme = ''note'', host = ''internal'', path = Some ''/foo''\<rparr>"
  have "scheme ?u1 \<noteq> ''note''" by simp
  with read_resource_cases [where u = ?u1 and s = ?s]
  have 1: "handle_read_resource ?s ?u1 = Inl (ValueError (''Unsupported URI scheme: '' @ scheme ?u1))"
    by blast
  have "scheme ?u2 = ''note'' \<and> path ?u2 = Some ''/missing''
          \<and> map_of (notes_store ?s) (JStr (lstrip_slash ''/missing'')) = None"
    by (simp add: lstrip_slash_def)
  with read_resource_cases [where u = ?u2 and s = ?s]
  have 2: "handle_read_resource ?s ?u2 = Inl (KeyError (lstrip_slash ''/missing''))"
    by blast
  have "scheme ?u3 = ''note'' \<and> path ?u3 = Some ''/foo''
          \<and> map_of (notes_store ?s) (JStr (lstrip_slash ''/foo'')) = Some (JStr ''bar'')"
    by (simp add: lstrip_slash_def)
  with read_resource_cases [where u = ?u3 and s = ?s]
  have 3: "handle_read_resource ?s ?u3 = Inr (JStr ''bar'')"
    by blast
  from 1 2 3 show ?thesis by (simp add: lstrip_slash_def)
qed

text \<open>
  Claim C10. The handler never reads the host, and the key it looks up is the path with
  every leading \<^verbatim>\<open>/\<close> removed; but then a note whose name begins with \<^verbatim>\<open>/\<close> cannot
  be read back. The note \<^verbatim>\<open>/x\<close> is in the store, \<^verbatim>\<open>handle_list_resources\<close> gives it
  the URI \<^verbatim>\<open>note://internal//x\<close>, and \<^verbatim>\<open>read-resource\<close> on that URI (path \<^verbatim>\<open>//x\<close>, a
  \<^verbatim>\<open>/\<close> and the name) looks up \<^verbatim>\<open>x\<close> and raises \<^verbatim>\<open>KeyError\<close> instead of returning
  the content.
\<close>

theorem read_resource_leading_slash_counterexample:
  "map_of (notes_store \<lparr>notes_store = [(JStr ''/x'', JStr ''c'')], opened = [], notifications = 1\<rparr>)
       (JStr ''/x'') = Some (JStr ''c'')
   \<and> handle_read_resource \<lparr>notes_store = [(JStr ''/x'', JStr ''c'')], opened = [], notifications = 1\<rparr>
       \<lparr>scheme = ''note'', host = ''internal'', path = Some (''/'' @ ''/x'')\<rparr>
     = Inl (KeyError ''x'')"
  by (simp add: handle_read_resource_def lstrip_slash_def)

text \<open>What does hold of the lookup: the host is not read, and the key is the stripped path.\<close>

lemma read_resource_host_unread:
  "handle_read_resource s (u\<lparr>host := h\<rparr>) = handle_read_resource s u"
  by (simp add: handle_read_resource_def)

lemma read_resource_key:
  "scheme u = ''note'' \<Longrightarrow> path u = Some p \<Longrightarrow>
     handle_read_resource s u =
       (case map_of (notes_store s) (JStr (dropWhile (\<lambda>c. c = CHR ''/'') p)) of
          Some c \<Rightarrow> Inr c
        | None \<Rightarrow> Inl (KeyError (dropWhile (\<lambda>c. c = CHR ''/'') p)))"
  by (simp add: handle_read_resource_def lstrip_slash_def split: option.splits)

section \<open>The summarize-notes prompt\<close>

text \<open>
  Claim C8. \<^verbatim>\<open>get-prompt\<close> raises for every name but \<^verbatim>\<open>summarize-notes\<close>. For that name it
  returns one message of role \<^verbatim>\<open>user\<close>; its text is the header, then
  \<^verbatim>\<open> Give extensive details.\<close> exactly when the bag has \<^verbatim>\<open>style\<close> equal to \<^verbatim>\<open>detailed\<close>,
  then an empty line and the lines \<^verbatim>\<open>- name: content\<close> of the notes, in the order of the
  store, joined by newlines.
\<close>

theorem get_prompt_text:
  "(name \<noteq> ''summarize-notes'' \<longrightarrow>
      handle_get_prompt s name arguments = Inl (ValueError (''Unknown prompt: '' @ name)))
   \<and> (\<exists>m. handle_get_prompt s ''summarize-notes'' arguments =
            Inr \<lparr>description = ''Summarize the current notes'', messages = [m]\<rparr>
        \<and> role m = ''user''
        \<and> content m =
            ''Here are the current notes to summarize:''
            @ (if \<exists>a. arguments = Some a \<and> map_of a ''style'' = Some (JStr ''detailed'')
               then '' Give extensive details.'' else [])
            @ [CHR 0x0A, CHR 0x0A]
            @ join [CHR 0x0A]
                (map (\<lambda>(n, c). ''- '' @ py_str n @ '': '' @ py_str c) (notes_store s)))"
proof -
  have lines: "map note_line (notes_store s) =
      map (\<lambda>(n, c). ''- '' @ py_str n @ '': '' @ py_str c) (notes_store s)"
    by (simp add: note_line_def case_prod_beta)
  show ?thesis
  proof (cases arguments)
    case None
    then show ?thesis by (simp add: handle_get_prompt_def lines)
  next
    case (Some a)
    then show ?thesis
      by (cases "map_of a ''style''") (simp_all add: handle_get_prompt_def lines)
  qed
qed

theorem get_prompt_text_witness:
  "handle_get_prompt \<lparr>notes_store = [], opened = [], notifications = 0\<rparr> ''summarise'' None
     = Inl (ValueError ''Unknown prompt: summarise'')
   \<and> (\<exists>m. handle_get_prompt
            \<lparr>notes_store = [(JStr ''a'', JStr ''b''), (JStr ''c'', JStr ''d'')], opened = [],
             notifications = 2\<rparr>
            ''summarize-notes'' (Some [(''style'', JStr ''detailed'')])
          = Inr \<lparr>description = ''Summarize the current notes'', messages = [m]\<rparr>
        \<and> role m = ''user''
        \<and> content m =
            ''Here are the current notes to summarize: Give extensive details.''
            @ [CHR 0x0A, CHR 0x0A] @ ''- a: b'' @ [CHR 0x0A] @ ''- c: d'')"
proof
  have "''summarise'' \<noteq> ''summarize-notes''" by simp
  with get_prompt_text [where name = "''summarise''"]
  show "handle_get_prompt \<lparr>notes_store = [], opened = [], notifications = 0\<rparr> ''summarise'' None
     = Inl (ValueError ''Unknown prompt: summarise'')"
    by fastforce
next
  let ?s = "\<lparr>notes_store = [(JStr ''a'', JStr ''b''), (JStr ''c'', JStr ''d'')], opened = [],
             notifications = 2\<rparr>"
  let ?args = "Some [(''style'', JStr ''detailed'')]"
  from get_prompt_text [where s = ?s and arguments = ?args and name = "''summarize-notes''"]
  show "\<exists>m. handle_get_prompt ?s ''summarize-notes'' ?args
          = Inr \<lparr>description = ''Summarize the current notes'', messages = [m]\<rparr>
        \<and> role m = ''user''
        \<and> content m =
            ''Here are the current notes to summarize: Give extensive details.''
            @ [CHR 0x0A, CHR 0x0A] @ ''- a: b'' @ [CHR 0x0A] @ ''- c: d''"
    by simp
qed

section \<open>The Agenda tools and the External Invoker\<close>

lemma invoke_failure:
  "fst (call_url run url s) = Inl e \<Longrightarrow>
     invoke run s url ok_text fail_prefix =
       (Inr [TextContent (fail_prefix @ str_exc e)], s\<lparr>opened := opened s @ [url]\<rparr>)"
  by (auto simp: invoke_def call_url_def split: run_result.splits)

lemma create_project_url_total:
  assumes "\<exists>t. map_of a ''title'' = Some (JStr t)"
    and "\<forall>k \<in> {''category_title'', ''identifier''}. \<forall>v. map_of a k = Some v \<longrightarrow> (\<exists>s. v = JStr s)"
  shows "\<exists>url. create_project_url env a = Inr url"
proof -
  have 1: "list_all (\<lambda>f. map_of a (fst f) \<noteq> None \<and> can_render a f) create_project_required"
    using assms(1) by (auto simp: create_project_required_def)
  have 2: "list_all (can_render a) create_project_optional"
    unfolding create_project_optional_def
    using assms(2) by (simp add: can_render_simps del: can_render.simps)
  from build_url_total [OF 1 2] show ?thesis
    by (simp add: create_project_url_def)
qed

text \<open>
  Claim C5. A \<^verbatim>\<open>create-agenda-project\<close> call is well-formed when its bag has a string
  \<^verbatim>\<open>title\<close> and, where present, strings for \<^verbatim>\<open>category_title\<close> and \<^verbatim>\<open>identifier\<close>. Its URL is
  then built, and whenever \<^verbatim>\<open>call_url\<close> raises on that URL the handler returns one text
  block, \<^verbatim>\<open>Failed to create project in Agenda: \<close> followed by the text of the exception;
  for a non-zero exit of the \<^verbatim>\<open>open\<close> command that text ends with the text of the
  \<^verbatim>\<open>CalledProcessError\<close>.
\<close>

theorem create_project_failure_is_text:
  "(\<exists>t. map_of a ''title'' = Some (JStr t))
   \<and> (\<forall>k \<in> {''category_title'', ''identifier''}. \<forall>v. map_of a k = Some v \<longrightarrow> (\<exists>s. v = JStr s))
   \<longrightarrow> (\<exists>url. create_project_url env a = Inr url
        \<and> (\<forall>e. fst (call_url (run_open env) url s) = Inl e \<longrightarrow>
              handle_call_tool env s ''create-agenda-project'' (Some a) =
                (Inr [TextContent (''Failed to create project in Agenda: '' @ str_exc e)],
                 s\<lparr>opened := opened s @ [url]\<rparr>)
              \<and> sublist ''Failed to create project in Agenda''
                   (''Failed to create project in Agenda: '' @ str_exc e)
              \<and> sublist (str_exc e) (''Failed to create project in Agenda: '' @ str_exc e))
        \<and> (\<forall>t. run_open env url = CalledProcessError t \<longrightarrow>
              handle_call_tool env s ''create-agenda-project'' (Some a) =
                (Inr [TextContent (''Failed to create project in Agenda: ''
                        @ ''Failed to execute x-callback-url: '' @ t)],
                 s\<lparr>opened := opened s @ [url]\<rparr>)))"
proof (intro impI)
  assume wf: "(\<exists>t. map_of a ''title'' = Some (JStr t))
   \<and> (\<forall>k \<in> {''category_title'', ''identifier''}. \<forall>v. map_of a k = Some v \<longrightarrow> (\<exists>s. v = JStr s))"
  then obtain url where url: "create_project_url env a = Inr url"
    using create_project_url_total by blast
  from wf have ne: "a \<noteq> []" by auto
  have h: "handle_call_tool env s ''create-agenda-project'' (Some a) =
      invoke (run_open env) s url
        (''Created project '' @ [CHR 0x27] @ py_str (get a ''title'') @ [CHR 0x27] @ '' in Agenda'')
        ''Failed to create project in Agenda: ''"
    using ne url by (simp add: handle_call_tool_def create_agenda_project_def)
  have 1: "handle_call_tool env s ''create-agenda-project'' (Some a) =
                (Inr [TextContent (''Failed to create project in Agenda: '' @ str_exc e)],
                 s\<lparr>opened := opened s @ [url]\<rparr>)"
    if "fst (call_url (run_open env) url s) = Inl e" for e
    unfolding h using that by (rule invoke_failure)
  have 2: "sublist ''Failed to create project in Agenda''
                   (''Failed to create project in Agenda: '' @ str_exc e)" for e
    using sublist_append_rightI [of "''Failed to create project in Agenda''" "'': '' @ str_exc e"]
    by simp
  have 3: "sublist (str_exc e) (''Failed to create project in Agenda: '' @ str_exc e)" for e
    by (rule sublist_append_leftI)
  have 4: "handle_call_tool env s ''create-agenda-project'' (Some a) =
                (Inr [TextContent (''Failed to create project in Agenda: ''
                        @ ''Failed to execute x-callback-url: '' @ t)],
                 s\<lparr>opened := opened s @ [url]\<rparr>)"
    if "run_open env url = CalledProcessError t" for t
  proof -
    from that have "fst (call_url (run_open env) url s) =
        Inl (RuntimeError (''Failed to execute x-callback-url: '' @ t))"
      by (simp add: call_url_def)
    from 1 [OF this] show ?thesis by simp
  qed
  from url 1 2 3 4 show "\<exists>url. create_project_url env a = Inr url
        \<and> (\<forall>e. fst (call_url (run_open env) url s) = Inl e \<longrightarrow>
              handle_call_tool env s ''create-agenda-project'' (Some a) =
                (Inr [TextContent (''Failed to create project in Agenda: '' @ str_exc e)],
                 s\<lparr>opened := opened s @ [url]\<rparr>)
              \<and> sublist ''Failed to create project in Agenda''
                   (''Failed to create project in Agenda: '' @ str_exc e)
              \<and> sublist (str_exc e) (''Failed to create project in Agenda: '' @ str_exc e))
        \<and> (\<forall>t. run_open env url = CalledProcessError t \<longrightarrow>
              handle_call_tool env s ''create-agenda-project'' (Some a) =
                (Inr [TextContent (''Failed to create project in Agenda: ''
                        @ ''Failed to execute x-callback-url: '' @ t)],
                 s\<lparr>opened := opened s @ [url]\<rparr>))"
    by blast
qed


theorem create_project_failure_is_text_witness:
  "handle_call_tool (quiet\<lparr>run_open := (\<lambda>u. CalledProcessError ''exit status 1'')\<rparr>)
       \<lparr>notes_store = [], opened = [], notifications = 0\<rparr>
       ''create-agenda-project'' (Some [(''title'', JStr ''P''), (''sort_order'', JStr ''newest-first'')])
     = (Inr [TextContent
          ''Failed to create project in Agenda: Failed to execute x-callback-url: exit status 1''],
        \<lparr>notes_store = [],
         opened = [''agenda://x-callback-url/create-project?title=P&sort-order=newest-first''],
         notifications = 0\<rparr>)"
proof -
  let ?env = "quiet\<lparr>run_open := (\<lambda>u. CalledProcessError ''exit status 1'')\<rparr>"
  let ?s = "\<lparr>notes_store = [], opened = [], notifications = 0\<rparr>"
  let ?a = "[(''title'', JStr ''P''), (''sort_order'', JStr ''newest-first'')]"
  have u: "create_project_url ?env ?a =
      Inr ''agenda://x-callback-url/create-project?title=P&sort-order=newest-first''"
    by (simp add: create_project_url_def build_url_def create_project_required_def
        create_project_optional_def quote_def quote_byte_def always_safe_def)
  have "(\<exists>t. map_of ?a ''title'' = Some (JStr t))
   \<and> (\<forall>k \<in> {''category_title'', ''identifier''}. \<forall>v. map_of ?a k = Some v \<longrightarrow> (\<exists>s. v = JStr s))"
    by simp
  with create_project_failure_is_text [where a = ?a and env = ?env and s = ?s]
  obtain url where "create_project_url ?env ?a = Inr url"
    and "\<forall>t. run_open ?env url = CalledProcessError t \<longrightarrow>
              handle_call_tool ?env ?s ''create-agenda-project'' (Some ?a) =
                (Inr [TextContent (''Failed to create project in Agenda: ''
                        @ ''Failed to execute x-callback-url: '' @ t)],
                 ?s\<lparr>opened := opened ?s @ [url]\<rparr>)"
    by blast
  with u show ?thesis by simp
qed

text \<open>
  Claim C3, as stated, fails: on a non-zero exit \<^verbatim>\<open>call_url\<close> does not return a result
  that records the failure, it raises \<^verbatim>\<open>RuntimeError\<close> to its caller.
\<close>

theorem call_url_raises_counterexample:
  "fst (call_url (\<lambda>u. CalledProcessError ''exit status 1'')
         ''agenda://x-callback-url/open-note?title=T''
         \<lparr>notes_store = [], opened = [], notifications = 0\<rparr>)
     = Inl (RuntimeError ''Failed to execute x-callback-url: exit status 1'')"
  by (simp add: call_url_def)

text \<open>
  Claim C3, amended. When the \<^verbatim>\<open>open\<close> command exits with a non-zero status,
  \<^verbatim>\<open>call_url\<close> raises a \<^verbatim>\<open>RuntimeError\<close> whose message is
  \<^verbatim>\<open>Failed to execute x-callback-url: \<close> followed by the text of the \<^verbatim>\<open>CalledProcessError\<close>.
  The exception leaves \<^verbatim>\<open>call_url\<close> and is caught by the \<^verbatim>\<open>try\<close> block of the tool
  handler that called it, which returns a text block holding that message.
\<close>

theorem call_url_nonzero_exit:
  "run url = CalledProcessError t \<longrightarrow>
     call_url run url s =
       (Inl (RuntimeError (''Failed to execute x-callback-url: '' @ t)),
        s\<lparr>opened := opened s @ [url]\<rparr>)
     \<and> (\<forall>ok_text fail_prefix.
           invoke run s url ok_text fail_prefix =
             (Inr [TextContent (fail_prefix @ ''Failed to execute x-callback-url: '' @ t)],
              s\<lparr>opened := opened s @ [url]\<rparr>))"
  by (simp add: call_url_def invoke_def)

theorem call_url_nonzero_exit_witness:
  "call_url (\<lambda>u. CalledProcessError ''exit status 1'')
         ''agenda://x-callback-url/open-note?title=T''
         \<lparr>notes_store = [], opened = [], notifications = 0\<rparr>
     = (Inl (RuntimeError ''Failed to execute x-callback-url: exit status 1''),
        \<lparr>notes_store = [], opened = [''agenda://x-callback-url/open-note?title=T''],
         notifications = 0\<rparr>)"
proof -
  let ?run = "\<lambda>u :: string. CalledProcessError ''exit status 1''"
  have "?run ''agenda://x-callback-url/open-note?title=T'' = CalledProcessError ''exit status 1''"
    by simp
  with call_url_nonzero_exit [where run = ?run and t = "''exit status 1''"
      and url = "''agenda://x-callback-url/open-note?title=T''"
      and s = "\<lparr>notes_store = [], opened = [], notifications = 0\<rparr>"]
  show ?thesis by simp
qed

text \<open>
  Claim C6. An \<^verbatim>\<open>open-agenda-note\<close> call with no argument bag, or with a bag that has
  neither \<^verbatim>\<open>title\<close> nor \<^verbatim>\<open>identifier\<close>, raises \<^verbatim>\<open>ValueError\<close> and leaves the state as it
  was, so no URL was handed to the \<^verbatim>\<open>open\<close> command; the outcome depends neither on the
  command nor on whether the rest of the bag could be turned into a URL.
\<close>

theorem open_note_needs_title_or_identifier:
  "(arguments = None \<longrightarrow>
      handle_call_tool env s ''open-agenda-note'' arguments
        = (Inl (ValueError ''Missing arguments''), s))
   \<and> (\<forall>a. arguments = Some a \<and> map_of a ''title'' = None \<and> map_of a ''identifier'' = None \<longrightarrow>
         handle_call_tool env s ''open-agenda-note'' arguments
           = (Inl (ValueError (if a = [] then ''Missing arguments''
                               else ''Either title or identifier must be provided'')), s))"
  by (simp add: handle_call_tool_def open_agenda_note_def)

theorem open_note_needs_title_or_identifier_witness:
  "handle_call_tool quiet
       \<lparr>notes_store = [], opened = [], notifications = 0\<rparr>
       ''open-agenda-note'' (Some [(''project_title'', JNull), (''separate_window'', JBool True)])
     = (Inl (ValueError ''Either title or identifier must be provided''),
        \<lparr>notes_store = [], opened = [], notifications = 0\<rparr>)
   \<and> open_note_url quiet [(''project_title'', JNull), (''separate_window'', JBool True)]
     = Inl (TypeError ''quote_from_bytes() expected bytes'')"
proof
  let ?a = "[(''project_title'', JNull), (''separate_window'', JBool True)]"
  have "Some ?a = Some ?a \<and> map_of ?a ''title'' = None \<and> map_of ?a ''identifier'' = None"
    by simp
  with open_note_needs_title_or_identifier [where arguments = "Some ?a"]
  show "handle_call_tool quiet
       \<lparr>notes_store = [], opened = [], notifications = 0\<rparr> ''open-agenda-note'' (Some ?a)
     = (Inl (ValueError ''Either title or identifier must be provided''),
        \<lparr>notes_store = [], opened = [], notifications = 0\<rparr>)"
    by fastforce
next
  show "open_note_url quiet [(''project_title'', JNull), (''separate_window'', JBool True)]
     = Inl (TypeError ''quote_from_bytes() expected bytes'')"
    by (simp add: open_note_url_def build_url_def open_note_optional_def)
qed

section \<open>Parameter values in the callback URLs\<close>

text \<open>
  Claim C7, as stated, fails: \<^verbatim>\<open>sort_order\<close> of \<^verbatim>\<open>create-agenda-project\<close> is a string that
  goes into the query as it is, so the \<^verbatim>\<open>&\<close> and the \<^verbatim>\<open>=\<close> of a value reach the URL
  unescaped (the encoder would have written \<^verbatim>\<open>a%26b%3Dc\<close>). The encoder itself leaves
  a \<^verbatim>\<open>/\<close> in a value as it is.
\<close>

theorem sort_order_unescaped_counterexample:
  "create_project_url quiet [(''title'', JStr ''T''), (''sort_order'', JStr ''a&b=c'')]
     = Inr ''agenda://x-callback-url/create-project?title=T&sort-order=a&b=c''
   \<and> quote ''a&b=c'' = ''a%26b%3Dc''
   \<and> create_note_url quiet [(''title'', JStr ''a/b''), (''text'', JStr ''c'')]
     = Inr ''agenda://x-callback-url/create-note?title=a/b&text=c''"
  by (simp add: create_project_url_def build_url_def create_project_required_def
      create_project_optional_def create_note_url_def create_note_required_def
      create_note_optional_def quote_def quote_byte_def always_safe_def hex_digit_def)

text \<open>
  Claim C7, amended. Whenever one of the three tools builds its URL, the query is the
  \<^verbatim>\<open>&\<close>-joined list of one parameter per field whose key is in the bag, in the order of
  the tool's table. A field rendered with \<^verbatim>\<open>quote\<close> (\<^verbatim>\<open>title\<close>, \<^verbatim>\<open>text\<close>, \<^verbatim>\<open>project-title\<close>,
  \<^verbatim>\<open>date\<close>, \<^verbatim>\<open>start-date\<close>, \<^verbatim>\<open>end-date\<close>, \<^verbatim>\<open>template-name\<close>, \<^verbatim>\<open>template-input\<close>,
  \<^verbatim>\<open>category-title\<close>, \<^verbatim>\<open>identifier\<close>) holds a string and shows it percent-encoded; a
  boolean of a field rendered with \<^verbatim>\<open>str(v).lower()\<close> shows as \<^verbatim>\<open>true\<close> or \<^verbatim>\<open>false\<close>;
  \<^verbatim>\<open>sort-order\<close> shows its value as it is. Percent-encoded text is made of letters, digits,
  \<^verbatim>\<open>_.-~\<close>, \<^verbatim>\<open>/\<close> and \<^verbatim>\<open>%XX\<close> escapes, so it has no reserved character other than \<^verbatim>\<open>/\<close>.
\<close>

theorem callback_url_values:
  "(\<forall>(build, base, fields) \<in> set
        [(create_note_url env, ''agenda://x-callback-url/create-note'',
            create_note_required @ create_note_optional),
         (create_project_url env, ''agenda://x-callback-url/create-project'',
            create_project_required @ create_project_optional),
         (open_note_url env, ''agenda://x-callback-url/open-note'', open_note_optional)].
      \<forall>url. build args = Inr url \<longrightarrow>
        (\<exists>ps. url = base @ ''?'' @ join ''&'' ps \<and>
           list_all2 (\<lambda>(k, q, r) p. \<exists>v. map_of args k = Some v \<and>
                 (case r of
                    Quoted \<Rightarrow> (\<exists>s. v = JStr s \<and> p = q @ ''='' @ quote s)
                  | Lowered \<Rightarrow>
                      (\<forall>b. v = JBool b \<longrightarrow> p = q @ ''='' @ (if b then ''true'' else ''false''))
                  | Plain \<Rightarrow> p = q @ ''='' @ py_str v))
             (present args fields) ps))
   \<and> map (\<lambda>(k, q, r). (q, r)) (create_note_required @ create_note_optional) =
       [(''title'', Quoted), (''text'', Quoted), (''project-title'', Quoted),
        (''on-the-agenda'', Lowered), (''date'', Quoted), (''start-date'', Quoted),
        (''end-date'', Quoted), (''template-name'', Quoted), (''template-input'', Quoted),
        (''collapsed'', Lowered), (''completed'', Lowered), (''pinned'', Lowered),
        (''footnote'', Lowered), (''select'', Lowered)]
   \<and> map (\<lambda>(k, q, r). (q, r)) (create_project_required @ create_project_optional) =
       [(''title'', Quoted), (''category-title'', Quoted), (''identifier'', Quoted),
        (''select'', Lowered), (''sort-order'', Plain)]
   \<and> map (\<lambda>(k, q, r). (q, r)) open_note_optional =
       [(''title'', Quoted), (''identifier'', Quoted), (''project-title'', Quoted),
        (''separate-window'', Lowered)]
   \<and> (\<forall>s. escaped (quote s) \<and> set (quote s) \<inter> set reserved = {})"
proof -
  have 1: "\<forall>url. create_note_url env args = Inr url \<longrightarrow>
        (\<exists>ps. url = ''agenda://x-callback-url/create-note'' @ ''?'' @ join ''&'' ps \<and>
           list_all2 (\<lambda>(k, q, r) p. \<exists>v. map_of args k = Some v \<and>
                 (case r of
                    Quoted \<Rightarrow> (\<exists>s. v = JStr s \<and> p = q @ ''='' @ quote s)
                  | Lowered \<Rightarrow>
                      (\<forall>b. v = JBool b \<longrightarrow> p = q @ ''='' @ (if b then ''true'' else ''false''))
                  | Plain \<Rightarrow> p = q @ ''='' @ py_str v))
             (present args (create_note_required @ create_note_optional)) ps)"
    unfolding create_note_url_def using build_url_values by blast
  have 2: "\<forall>url. create_project_url env args = Inr url \<longrightarrow>
        (\<exists>ps. url = ''agenda://x-callback-url/create-project'' @ ''?'' @ join ''&'' ps \<and>
           list_all2 (\<lambda>(k, q, r) p. \<exists>v. map_of args k = Some v \<and>
                 (case r of
                    Quoted \<Rightarrow> (\<exists>s. v = JStr s \<and> p = q @ ''='' @ quote s)
                  | Lowered \<Rightarrow>
                      (\<forall>b. v = JBool b \<longrightarrow> p = q @ ''='' @ (if b then ''true'' else ''false''))
                  | Plain \<Rightarrow> p = q @ ''='' @ py_str v))
             (present args (create_project_required @ create_project_optional)) ps)"
    unfolding create_project_url_def using build_url_values by blast
  have 3: "\<forall>url. open_note_url env args = Inr url \<longrightarrow>
        (\<exists>ps. url = ''agenda://x-callback-url/open-note'' @ ''?'' @ join ''&'' ps \<and>
           list_all2 (\<lambda>(k, q, r) p. \<exists>v. map_of args k = Some v \<and>
                 (case r of
                    Quoted \<Rightarrow> (\<exists>s. v = JStr s \<and> p = q @ ''='' @ quote s)
                  | Lowered \<Rightarrow>
                      (\<forall>b. v = JBool b \<longrightarrow> p = q @ ''='' @ (if b then ''true'' else ''false''))
                  | Plain \<Rightarrow> p = q @ ''='' @ py_str v))
             (present args open_note_optional) ps)"
    unfolding open_note_url_def using build_url_values [where req = "[]", unfolded append_Nil]
    by blast
  have 4: "map (\<lambda>(k, q, r). (q, r)) (create_note_required @ create_note_optional) =
       [(''title'', Quoted), (''text'', Quoted), (''project-title'', Quoted),
        (''on-the-agenda'', Lowered), (''date'', Quoted), (''start-date'', Quoted),
        (''end-date'', Quoted), (''template-name'', Quoted), (''template-input'', Quoted),
        (''collapsed'', Lowered), (''completed'', Lowered), (''pinned'', Lowered),
        (''footnote'', Lowered), (''select'', Lowered)]"
    by (simp add: create_note_required_def create_note_optional_def)
  have 5: "map (\<lambda>(k, q, r). (q, r)) (create_project_required @ create_project_optional) =
       [(''title'', Quoted), (''category-title'', Quoted), (''identifier'', Quoted),
        (''select'', Lowered), (''sort-order'', Plain)]"
    by (simp add: create_project_required_def create_project_optional_def)
  have 6: "map (\<lambda>(k, q, r). (q, r)) open_note_optional =
       [(''title'', Quoted), (''identifier'', Quoted), (''project-title'', Quoted),
        (''separate-window'', Lowered)]"
    by (simp add: open_note_optional_def)
  have 7: "\<forall>s. escaped (quote s) \<and> set (quote s) \<inter> set reserved = {}"
    using escaped_quote quote_no_reserved by blast
  from 1 2 3 have "\<forall>(build, base, fields) \<in> set
        [(create_note_url env, ''agenda://x-callback-url/create-note'',
            create_note_required @ create_note_optional),
         (create_project_url env, ''agenda://x-callback-url/create-project'',
            create_project_required @ create_project_optional),
         (open_note_url env, ''agenda://x-callback-url/open-note'', open_note_optional)].
      \<forall>url. build args = Inr url \<longrightarrow>
        (\<exists>ps. url = base @ ''?'' @ join ''&'' ps \<and>
           list_all2 (\<lambda>(k, q, r) p. \<exists>v. map_of args k = Some v \<and>
                 (case r of
                    Quoted \<Rightarrow> (\<exists>s. v = JStr s \<and> p = q @ ''='' @ quote s)
                  | Lowered \<Rightarrow>
                      (\<forall>b. v = JBool b \<longrightarrow> p = q @ ''='' @ (if b then ''true'' else ''false''))
                  | Plain \<Rightarrow> p = q @ ''='' @ py_str v))
             (present args fields) ps)"
    by (simp only: list.set ball_simps prod.case)
  with 4 5 6 7 show ?thesis by (intro conjI)
qed


theorem callback_url_values_witness:
  "(\<exists>ps. ''agenda://x-callback-url/create-note?title=A%26B&text=x/y%20z&pinned=false''
           = ''agenda://x-callback-url/create-note'' @ ''?'' @ join ''&'' ps
         \<and> ps = [''title='' @ quote ''A&B'', ''text='' @ quote ''x/y z'', ''pinned=false''])
   \<and> escaped (quote ''A&B'')"
proof
  let ?a = "[(''pinned'', JBool False), (''title'', JStr ''A&B''), (''text'', JStr ''x/y z'')]"
  have q: "quote ''A&B'' = ''A%26B''" "quote ''x/y z'' = ''x/y%20z''"
    by (simp_all add: quote_def quote_byte_def always_safe_def hex_digit_def)
  have u: "create_note_url quiet ?a =
      Inr ''agenda://x-callback-url/create-note?title=A%26B&text=x/y%20z&pinned=false''"
    by (simp add: create_note_url_def build_url_def create_note_required_def
        create_note_optional_def q lower_False)
  have p: "present ?a (create_note_required @ create_note_optional) =
      [(''title'', ''title'', Quoted), (''text'', ''text'', Quoted),
       (''pinned'', ''pinned'', Lowered)]"
    by (simp add: present_def create_note_required_def create_note_optional_def)
  note callback_url_values [where args = ?a and env = quiet, THEN conjunct1,
      simplified list.set ball_simps prod.case, THEN conjunct1, rule_format, OF u]
  then show "\<exists>ps. ''agenda://x-callback-url/create-note?title=A%26B&text=x/y%20z&pinned=false''
           = ''agenda://x-callback-url/create-note'' @ ''?'' @ join ''&'' ps
         \<and> ps = [''title='' @ quote ''A&B'', ''text='' @ quote ''x/y z'', ''pinned=false'']"
    unfolding p by (auto simp: list_all2_Cons1)
next
  from callback_url_values [where args = "[]"] show "escaped (quote ''A&B'')" by blast
qed


end
